theory Spec2Isabelle
  imports Complex_Main
begin

section \<open>Ignition-delay simulations: the numerical core of simulation.py\<close>

text \<open>
  The development follows \<^verbatim>\<open>src/PyTeCK/simulation.py\<close>. Floating-point numbers are
  idealised as \<^typ>\<open>real\<close>: every statement below is about exact arithmetic, rounding is
  not modelled. Python exceptions are values of the type \<open>error\<close>; a function that can
  raise returns \<open>error + 'a\<close>, with \<open>Inl\<close> the exception. Quantities with units are
  reals in SI units (times in seconds), and the HDF5 table that \<^verbatim>\<open>run_case\<close> writes and
  \<^verbatim>\<open>process_results\<close> reads is the list of its rows.
\<close>

datatype error =
    NameError | ValueError | IndexError | AttributeError | ZeroDivisionError | CanteraError

subsection \<open>The numpy routines the module calls\<close>

text \<open>
  \<^verbatim>\<open>np.gradient(f, *varargs, edge_order=1)\<close> on a one-dimensional array, as the numpy
  releases of the module's time (1.9.1 to 1.11) compute it: the differences are taken
  with unit spacing (central in the interior; at the two ends one-sided of first order
  when \<open>edge_order = 1\<close> or the array has two elements, of second order otherwise), and
  the result is then divided, element by element, by the spacing argument
  (\<^verbatim>\<open>out /= dx\<close>). \<open>None\<close> is the default spacing \<open>1.0\<close>. An array of fewer than two
  elements, and a spacing array that does not broadcast against the result, raise
  ValueError. Dividing by a zero spacing gives inf or nan in numpy and no exception;
  in HOL it gives 0, so statements about values keep the spacing non-zero.
\<close>

definition np_gradient :: "real list \<Rightarrow> real list option \<Rightarrow> nat \<Rightarrow> error + real list" where
  "np_gradient y dx edge_order =
     (if length y < 2 then Inl ValueError
      else
        let n = length y;
            inner = map (\<lambda>(a, b). (a - b) / 2) (zip (drop 2 y) (take (n - 2) y));
            out =
              (if n = 2 \<or> edge_order = 1
               then [y ! 1 - y ! 0] @ inner @ [y ! (n - 1) - y ! (n - 2)]
               else [- (3 * y ! 0 - 4 * y ! 1 + y ! 2) / 2] @ inner @
                    [(3 * y ! (n - 1) - 4 * y ! (n - 2) + y ! (n - 3)) / 2])
        in (case dx of
              None \<Rightarrow> Inr out
            | Some d \<Rightarrow>
                if length d = length out then Inr (map (\<lambda>(a, b). a / b) (zip out d))
                else if length d = 1 then Inr (map (\<lambda>a. a / d ! 0) out)
                else Inl ValueError))"

text \<open>
  \<^verbatim>\<open>np.interp(x, xp, fp, left=None, right=None)\<close> at a scalar \<open>x\<close>. numpy answers
  \<open>right\<close> above the last sample point and \<open>left\<close> below the first one (by default the
  last and first value of \<open>fp\<close>); in between it locates the index \<open>j\<close> with
  \<open>xp[j] \<le> x < xp[j+1]\<close> and returns \<open>slope * (x - xp[j]) + fp[j]\<close>. The index is found
  by a scan from position 1 when \<open>xp\<close> has at most four elements and by bisection
  otherwise; on an increasing \<open>xp\<close>, the documented precondition, both find the last
  \<open>j\<close> with \<open>xp[j] \<le> x\<close>, and the model uses the scan.
\<close>

definition np_interp ::
  "real \<Rightarrow> real list \<Rightarrow> real list \<Rightarrow> real option \<Rightarrow> real option \<Rightarrow> error + real" where
  "np_interp x xp fp left right =
     (if xp = [] then Inl ValueError
      else if length fp = length xp then
        let n = length xp;
            lval = (case left of None \<Rightarrow> fp ! 0 | Some l \<Rightarrow> l);
            rval = (case right of None \<Rightarrow> fp ! (n - 1) | Some r \<Rightarrow> r)
        in if x > xp ! (n - 1) then Inr rval
           else if x < xp ! 0 then Inr lval
           else
             let j = length (takeWhile (\<lambda>a. a \<le> x) (tl xp))
             in if j = n - 1 then Inr (fp ! j)
                else Inr ((fp ! (j + 1) - fp ! j) / (xp ! (j + 1) - xp ! j) * (x - xp ! j) + fp ! j)
      else Inl ValueError)"

text \<open>
  \<^verbatim>\<open>np.arange(start, stop, step)\<close> in exact arithmetic:
  \<open>ceil((stop - start) / step)\<close> samples \<open>start + i * step\<close>. (The version with the
  rounding of doubles is \<open>np_arange_rounded\<close> below.)
\<close>

definition np_arange :: "real \<Rightarrow> real \<Rightarrow> real \<Rightarrow> real list" where
  "np_arange start stop step =
     map (\<lambda>i. start + real i * step) [0 ..< nat \<lceil>(stop - start) / step\<rceil>]"

text \<open>
  \<^verbatim>\<open>np.argmax(a)\<close>: the position of the first occurrence of the largest element; an
  empty array raises ValueError. The loop is numpy's: keep the largest value seen so far
  and replace it only by a strictly larger one.
\<close>

fun argmax_loop :: "real \<Rightarrow> nat \<Rightarrow> nat \<Rightarrow> real list \<Rightarrow> nat" where
  "argmax_loop mp best i [] = best"
| "argmax_loop mp best i (v # vs) =
     (if v > mp then argmax_loop v i (Suc i) vs else argmax_loop mp best (Suc i) vs)"

definition np_argmax :: "real list \<Rightarrow> error + nat" where
  "np_argmax a = (case a of [] \<Rightarrow> Inl ValueError | v # vs \<Rightarrow> Inr (argmax_loop v 0 1 vs))"

text \<open>
  Indexing an array by an array of positions, \<^verbatim>\<open>a[ind]\<close>: IndexError when a position
  is out of range.
\<close>

definition take_indices :: "'a list \<Rightarrow> nat list \<Rightarrow> error + 'a list" where
  "take_indices a ind =
     (if list_all (\<lambda>i. i < length a) ind then Inr (map (\<lambda>i. a ! i) ind) else Inl IndexError)"

subsection \<open>first_derivative\<close>

text \<open>
  \<^verbatim>\<open>return (np.gradient(y, np.gradient(x), edge_order=2))\<close>: the inner call uses the
  default \<open>edge_order = 1\<close> and unit spacing, the outer one second-order ends, divided by
  the inner result.
\<close>

definition first_derivative :: "real list \<Rightarrow> real list \<Rightarrow> error + real list" where
  "first_derivative x y =
     (case np_gradient x None 1 of
        Inl e \<Rightarrow> Inl e
      | Inr dx \<Rightarrow> np_gradient y (Some dx) 2)"

subsection \<open>first_derivative under numpy 1.13 and later\<close>

text \<open>
  numpy 1.12 refuses an array as spacing with a ValueError, so
  that \<^verbatim>\<open>first_derivative\<close> raises on every input there. From numpy 1.13 on, an
  array given to \<^verbatim>\<open>np.gradient\<close> as spacing is read as the
  coordinates of the samples, not as the spacing itself: numpy takes the differences of
  that array (a single step \<open>h\<close> when they are all equal) and applies the second-order
  formulas for these steps. The module was written for the earlier reading, which the
  rest of this development follows; the later one is modelled only to evaluate the same
  expression under it. \<open>edge_order\<close> is 2, as in the call; an array of fewer than three
  elements and coordinates of another length raise ValueError.
\<close>

definition np_gradient_coordinates :: "real list \<Rightarrow> real list \<Rightarrow> error + real list" where
  "np_gradient_coordinates f xs =
     (if length xs = length f \<and> 3 \<le> length f then
        let n = length f;
            diffx = map (\<lambda>i. xs ! (i + 1) - xs ! i) [0 ..< n - 1]
        in if list_all (\<lambda>d. d = diffx ! 0) diffx then
             let h = diffx ! 0
             in Inr ([(- 3 / 2) / h * f ! 0 + 2 / h * f ! 1 + (- 1 / 2) / h * f ! 2] @
                     map (\<lambda>i. (f ! (i + 1) - f ! (i - 1)) / (2 * h)) [1 ..< n - 1] @
                     [(1 / 2) / h * f ! (n - 3) + (- 2) / h * f ! (n - 2) + (3 / 2) / h * f ! (n - 1)])
           else
             let interior = (\<lambda>i.
                   let dx1 = diffx ! (i - 1); dx2 = diffx ! i
                   in (- dx2 / (dx1 * (dx1 + dx2))) * f ! (i - 1)
                      + ((dx2 - dx1) / (dx1 * dx2)) * f ! i
                      + (dx1 / (dx2 * (dx1 + dx2))) * f ! (i + 1));
                 first =
                   (let dx1 = diffx ! 0; dx2 = diffx ! 1
                    in (- (2 * dx1 + dx2) / (dx1 * (dx1 + dx2))) * f ! 0
                       + ((dx1 + dx2) / (dx1 * dx2)) * f ! 1
                       + (- dx1 / (dx2 * (dx1 + dx2))) * f ! 2);
                 final =
                   (let dx1 = diffx ! (n - 3); dx2 = diffx ! (n - 2)
                    in (dx2 / (dx1 * (dx1 + dx2))) * f ! (n - 3)
                       + (- (dx2 + dx1) / (dx1 * dx2)) * f ! (n - 2)
                       + ((2 * dx2 + dx1) / (dx2 * (dx1 + dx2))) * f ! (n - 1))
             in Inr ([first] @ map interior [1 ..< n - 1] @ [final])
      else Inl ValueError)"

text \<open>
  The expression of \<^verbatim>\<open>first_derivative\<close> with the outer call read this way.
\<close>

definition first_derivative_coordinates :: "real list \<Rightarrow> real list \<Rightarrow> error + real list" where
  "first_derivative_coordinates x y =
     (case np_gradient x None 1 of
        Inl e \<Rightarrow> Inl e
      | Inr dx \<Rightarrow> np_gradient_coordinates y dx)"

subsection \<open>Pressure-rise volume history\<close>

text \<open>
  \<^verbatim>\<open>sample_rising_pressure\<close>: the time grid is
  \<^verbatim>\<open>np.arange(0.0, time_end + (1.0 / freq), (1.0 / freq))\<close>, the pressures follow the
  linear law. \<open>1.0 / freq\<close> on Python floats raises ZeroDivisionError at \<open>freq = 0\<close>.
\<close>

definition sample_rising_pressure ::
  "real \<Rightarrow> real \<Rightarrow> real \<Rightarrow> real \<Rightarrow> error + real list \<times> real list" where
  "sample_rising_pressure t_end init_pres freq pressure_rise_rate =
     (if freq = 0 then Inl ZeroDivisionError
      else
        let times_arr = np_arange 0 (t_end + 1 / freq) (1 / freq);
            pressures = map (\<lambda>t. init_pres * (pressure_rise_rate * t + 1)) times_arr
        in Inr (times_arr, pressures))"

text \<open>
  The Cantera \<^verbatim>\<open>Solution\<close> object is an external collaborator; of it the module uses
  the entropy and the density of the state set by \<^verbatim>\<open>gas.TPX = temp, pres, reactants\<close>
  and the density of the state set by \<^verbatim>\<open>gas.SP = entropy, p\<close> (composition
  unchanged). These three queries are the fields of \<open>solution\<close>.
\<close>

record solution =
  entropy_mass_TPX :: "real \<Rightarrow> real \<Rightarrow> string \<Rightarrow> real"
  density_TPX :: "real \<Rightarrow> real \<Rightarrow> string \<Rightarrow> real"
  density_SP :: "real \<Rightarrow> real \<Rightarrow> string \<Rightarrow> real"

text \<open>
  The loop \<^verbatim>\<open>for i, p in enumerate(pressures): gas.SP = initial_entropy, p;
  volumes[i] = initial_density / gas.density\<close>. Both operands are Python floats, so a
  zero density raises ZeroDivisionError.
\<close>

fun volumes_loop :: "(real \<Rightarrow> real) \<Rightarrow> real \<Rightarrow> real list \<Rightarrow> error + real list" where
  "volumes_loop dens initial_density [] = Inr []"
| "volumes_loop dens initial_density (p # ps) =
     (if dens p = 0 then Inl ZeroDivisionError
      else (case volumes_loop dens initial_density ps of
              Inl e \<Rightarrow> Inl e
            | Inr vs \<Rightarrow> Inr (initial_density / dens p # vs)))"

definition create_volume_history ::
  "solution \<Rightarrow> real \<Rightarrow> real \<Rightarrow> string \<Rightarrow> real \<Rightarrow> real \<Rightarrow> error + real list \<times> real list" where
  "create_volume_history gas temp pres reactants pres_rise t_end =
     (let initial_entropy = entropy_mass_TPX gas temp pres reactants;
          initial_density = density_TPX gas temp pres reactants;
          freq = 20000
      in (case sample_rising_pressure t_end pres freq pres_rise of
            Inl e \<Rightarrow> Inl e
          | Inr (times_arr, pressures) \<Rightarrow>
              (case volumes_loop (\<lambda>p. density_SP gas initial_entropy p reactants)
                      initial_density pressures of
                 Inl e \<Rightarrow> Inl e
               | Inr volumes \<Rightarrow> Inr (times_arr, volumes))))"

subsection \<open>The volume history in double arithmetic\<close>

text \<open>
  The definitions above compute in exact arithmetic. How many samples
  \<^verbatim>\<open>np.arange\<close> produces, and where the last one lies, is decided by the rounding of
  double arithmetic, so the same functions follow with the rounding made explicit:
  \<open>fl\<close> maps a real number to the double that stands for it, and every arithmetic
  operation of the source is followed by \<open>fl\<close>. Of \<open>fl\<close> the statements below use
  three properties of rounding to nearest: it is monotone, it leaves a rounded value
  as it is, and it is exact on the integers up to \<open>2^53\<close>.
\<close>

definition rounding :: "(real \<Rightarrow> real) \<Rightarrow> bool" where
  "rounding fl \<longleftrightarrow>
     (\<forall>x y. x \<le> y \<longrightarrow> fl x \<le> fl y) \<and> (\<forall>x. fl (fl x) = fl x)
     \<and> (\<forall>k::nat. real k \<le> 2 ^ 53 \<longrightarrow> fl (real k) = real k)"

text \<open>
  \<^verbatim>\<open>np.arange(start, stop, step)\<close> on Python floats: the length is the ceiling of
  \<open>(stop - start) / step\<close>, computed in doubles (a zero step raises); the first two
  samples are \<open>start\<close> and \<open>start + step\<close>, the others \<open>start + i * delta\<close> with
  \<open>delta\<close> the difference of the first two.
\<close>

definition np_arange_rounded ::
  "(real \<Rightarrow> real) \<Rightarrow> real \<Rightarrow> real \<Rightarrow> real \<Rightarrow> error + real list" where
  "np_arange_rounded fl start stop step =
     (if step = 0 then Inl ZeroDivisionError
      else
        let n = nat \<lceil>fl (fl (stop - start) / step)\<rceil>;
            next = fl (start + step);
            delta = fl (next - start)
        in Inr (map (\<lambda>i. if i = 0 then start else if i = 1 then next
                          else fl (start + fl (real i * delta))) [0 ..< n]))"

definition sample_rising_pressure_rounded ::
  "(real \<Rightarrow> real) \<Rightarrow> real \<Rightarrow> real \<Rightarrow> real \<Rightarrow> real \<Rightarrow> error + real list \<times> real list" where
  "sample_rising_pressure_rounded fl t_end init_pres freq pressure_rise_rate =
     (if freq = 0 then Inl ZeroDivisionError
      else
        (case np_arange_rounded fl 0 (fl (t_end + fl (1 / freq))) (fl (1 / freq)) of
           Inl e \<Rightarrow> Inl e
         | Inr ts \<Rightarrow>
             Inr (ts, map (\<lambda>t. fl (init_pres * fl (fl (pressure_rise_rate * t) + 1))) ts)))"

fun volumes_loop_rounded ::
  "(real \<Rightarrow> real) \<Rightarrow> (real \<Rightarrow> real) \<Rightarrow> real \<Rightarrow> real list \<Rightarrow> error + real list" where
  "volumes_loop_rounded fl dens initial_density [] = Inr []"
| "volumes_loop_rounded fl dens initial_density (p # ps) =
     (if dens p = 0 then Inl ZeroDivisionError
      else (case volumes_loop_rounded fl dens initial_density ps of
              Inl e \<Rightarrow> Inl e
            | Inr vs \<Rightarrow> Inr (fl (initial_density / dens p) # vs)))"

definition create_volume_history_rounded ::
  "(real \<Rightarrow> real) \<Rightarrow> solution \<Rightarrow> real \<Rightarrow> real \<Rightarrow> string \<Rightarrow> real \<Rightarrow> real
     \<Rightarrow> error + real list \<times> real list" where
  "create_volume_history_rounded fl gas temp pres reactants pres_rise t_end =
     (let initial_entropy = entropy_mass_TPX gas temp pres reactants;
          initial_density = density_TPX gas temp pres reactants;
          freq = 20000
      in (case sample_rising_pressure_rounded fl t_end pres freq pres_rise of
            Inl e \<Rightarrow> Inl e
          | Inr (ts, pressures) \<Rightarrow>
              (case volumes_loop_rounded fl (\<lambda>p. density_SP gas initial_entropy p reactants)
                      initial_density pressures of
                 Inl e \<Rightarrow> Inl e
               | Inr volumes \<Rightarrow> Inr (ts, volumes))))"

text \<open>
  The quantities of a run at 20 kHz, as the code computes them: the step
  \<^verbatim>\<open>1.0 / freq\<close>, the stop value \<^verbatim>\<open>time_end + (1.0 / freq)\<close>, the number of
  samples, the sample of index \<open>i\<close> and the pressure there.
\<close>

definition sample_step :: "(real \<Rightarrow> real) \<Rightarrow> real" where
  "sample_step fl = fl (1 / 20000)"

definition sample_stop :: "(real \<Rightarrow> real) \<Rightarrow> real \<Rightarrow> real" where
  "sample_stop fl t_end = fl (t_end + sample_step fl)"

definition sample_count :: "(real \<Rightarrow> real) \<Rightarrow> real \<Rightarrow> nat" where
  "sample_count fl t_end = nat \<lceil>fl (sample_stop fl t_end / sample_step fl)\<rceil>"

definition sample_time :: "(real \<Rightarrow> real) \<Rightarrow> nat \<Rightarrow> real" where
  "sample_time fl i = fl (real i * sample_step fl)"

definition sample_pressure :: "(real \<Rightarrow> real) \<Rightarrow> real \<Rightarrow> real \<Rightarrow> nat \<Rightarrow> real" where
  "sample_pressure fl init_pres rate i = fl (init_pres * fl (fl (rate * sample_time fl i) + 1))"

subsection \<open>VolumeProfile and PressureRiseProfile\<close>

text \<open>
  Both classes hold \<^verbatim>\<open>times\<close> (here \<open>times_arr\<close>) and \<^verbatim>\<open>velocity\<close>;
  \<^verbatim>\<open>PressureRiseProfile\<close> inherits
  \<^verbatim>\<open>__call__\<close> from \<^verbatim>\<open>VolumeProfile\<close> and replaces the constructor only.
  \<^verbatim>\<open>properties['volume'].magnitude[0]\<close> raises IndexError on an empty history.
\<close>

record profile =
  times_arr :: "real list"
  velocity :: "real list"

definition VolumeProfile_init :: "real list \<Rightarrow> real list \<Rightarrow> error + profile" where
  "VolumeProfile_init properties_time properties_volume =
     (if properties_volume = [] then Inl IndexError
      else
        let volumes = map (\<lambda>v. v / properties_volume ! 0) properties_volume
        in (case first_derivative properties_time volumes of
              Inl e \<Rightarrow> Inl e
            | Inr vel \<Rightarrow> Inr \<lparr>times_arr = properties_time, velocity = vel\<rparr>))"

definition PressureRiseProfile_init ::
  "solution \<Rightarrow> real \<Rightarrow> real \<Rightarrow> string \<Rightarrow> real \<Rightarrow> real \<Rightarrow> error + profile" where
  "PressureRiseProfile_init gas initial_temp initial_pres reactants pressure_rise t_end =
     (case create_volume_history gas initial_temp initial_pres reactants pressure_rise t_end of
        Inl e \<Rightarrow> Inl e
      | Inr (ts, volumes) \<Rightarrow>
          (case first_derivative ts volumes of
             Inl e \<Rightarrow> Inl e
           | Inr vel \<Rightarrow> Inr \<lparr>times_arr = ts, velocity = vel\<rparr>))"

definition profile_call :: "profile \<Rightarrow> real \<Rightarrow> error + real" where
  "profile_call self t = np_interp t (times_arr self) (velocity self) (Some 0) (Some 0)"

subsection \<open>Simulation\<close>

text \<open>
  \<open>ignition_target\<close> is a string when the case is created and may become a species
  index in \<^verbatim>\<open>setup_case\<close>. \<open>compression_time\<close> is the entry
  \<^verbatim>\<open>properties['compression-time']\<close>, in seconds, \<open>None\<close> when the key is absent.
\<close>

datatype py_value = PyStr string | PyInt nat

record simulation =
  ignition_target :: py_value
  ignition_type :: string
  time_end :: real
  compression_time :: "real option"

subsubsection \<open>setup_case: the ignition target\<close>

text \<open>\<^verbatim>\<open>str.lower\<close> on the ASCII letters.\<close>

definition lower_char :: "char \<Rightarrow> char" where
  "lower_char c =
     (let k = (of_char c :: nat) in if 65 \<le> k \<and> k \<le> 90 then char_of (k + 32) else c)"

definition lower :: "string \<Rightarrow> string" where
  "lower s = map lower_char s"

text \<open>
  \<^verbatim>\<open>gas.species_index\<close> is the collaborator's lookup: it returns the index or raises
  ValueError when the mechanism has no such species. The loop keeps the first index
  found; only ValueError is caught.
\<close>

fun species_lookup :: "(string \<Rightarrow> error + nat) \<Rightarrow> string list \<Rightarrow> error + nat option" where
  "species_lookup species_index [] = Inr None"
| "species_lookup species_index (sp # sps) =
     (case species_index sp of
        Inr k \<Rightarrow> Inr (Some k)
      | Inl e \<Rightarrow> if e = ValueError then species_lookup species_index sps else Inl e)"

definition try_list :: "string \<Rightarrow> string list" where
  "try_list spec =
     [spec, lower spec] @
     (if last spec = CHR ''*'' then [butlast spec, lower (butlast spec)] else [])"

definition fall_back :: "simulation \<Rightarrow> string \<Rightarrow> simulation \<times> string list" where
  "fall_back self spec =
     (self\<lparr>ignition_target := PyStr ''pressure'', ignition_type := ''d/dt max''\<rparr>,
      [''Warning: '' @ spec @ '' not found in model; falling back on pressure.''])"

text \<open>
  Lines 298 to 325 of \<^verbatim>\<open>setup_case\<close>. The result is the updated object and the lines
  printed. \<^verbatim>\<open>spec.lower()\<close> on an index raises AttributeError, \<^verbatim>\<open>spec[-1]\<close> on
  the empty string IndexError. \<^verbatim>\<open>if ind:\<close> tests truthiness: \<open>None\<close> and \<open>0\<close> are
  both false.
\<close>

definition setup_case_target ::
  "(string \<Rightarrow> error + nat) \<Rightarrow> simulation \<Rightarrow> error + simulation \<times> string list" where
  "setup_case_target species_index self =
     (if ignition_target self = PyStr ''pressure'' \<or> ignition_target self = PyStr ''temperature''
      then Inr (self, [])
      else
        (case ignition_target self of
           PyInt k \<Rightarrow> Inl AttributeError
         | PyStr spec \<Rightarrow>
             if spec = [] then Inl IndexError
             else
               (case species_lookup species_index (try_list spec) of
                  Inl e \<Rightarrow> Inl e
                | Inr ind \<Rightarrow>
                    (case ind of
                       None \<Rightarrow> Inr (fall_back self spec)
                     | Some k \<Rightarrow>
                         if k = 0 then Inr (fall_back self spec)
                         else Inr (self\<lparr>ignition_target := PyInt k\<rparr>, [])))))"

text \<open>
  A mechanism given by its list of species names, with the lookup by exact name.
\<close>

definition species_index_of :: "string list \<Rightarrow> string \<Rightarrow> error + nat" where
  "species_index_of names sp =
     (if sp \<in> set names then Inr (length (takeWhile (\<lambda>n. n \<noteq> sp) names)) else Inl ValueError)"

subsubsection \<open>run_case: the integration loop\<close>

text \<open>One row of the table \<^verbatim>\<open>simulation\<close>.\<close>

record timestep =
  time :: real
  temperature :: real
  pressure :: real
  volume :: real
  mass_fractions :: "real list"

text \<open>
  The reactor network is an external collaborator with a state of its own, \<open>'r\<close>. The
  module reads \<^verbatim>\<open>reac_net.time\<close>, \<^verbatim>\<open>reac.T\<close>, \<^verbatim>\<open>reac.thermo.P\<close>,
  \<^verbatim>\<open>reac.volume\<close> and \<^verbatim>\<open>reac.Y\<close> and calls \<^verbatim>\<open>reac_net.step(time_end)\<close>, which
  may fail.
\<close>

record 'r reactor_net =
  net_time :: "'r \<Rightarrow> real"
  reac_T :: "'r \<Rightarrow> real"
  thermo_P :: "'r \<Rightarrow> real"
  reac_volume :: "'r \<Rightarrow> real"
  reac_Y :: "'r \<Rightarrow> real list"
  net_step :: "real \<Rightarrow> 'r \<Rightarrow> error + 'r"

definition current :: "'r reactor_net \<Rightarrow> 'r \<Rightarrow> timestep" where
  "current net r =
     \<lparr>time = net_time net r, temperature = reac_T net r, pressure = thermo_P net r,
      volume = reac_volume net r, mass_fractions = reac_Y net r\<rparr>"

fun collect :: "('a \<Rightarrow> error + 'b) \<Rightarrow> 'a list \<Rightarrow> error + 'b list" where
  "collect f [] = Inr []"
| "collect f (x # xs) =
     (case f x of
        Inl e \<Rightarrow> Inl e
      | Inr y \<Rightarrow> (case collect f xs of Inl e \<Rightarrow> Inl e | Inr ys \<Rightarrow> Inr (y # ys)))"

text \<open>
  The branch taken when the step went beyond the end time. The variables
  \<^verbatim>\<open>prev_time\<close>, \<^verbatim>\<open>prev_temp\<close>, \<^verbatim>\<open>prev_pres\<close>, \<^verbatim>\<open>prev_vol\<close> and
  \<^verbatim>\<open>prev_mass_frac\<close> are assigned together at the end of the loop body; \<open>prev\<close> is
  \<open>None\<close> while they are unbound, and reading \<^verbatim>\<open>prev_time\<close> then raises
  UnboundLocalError, a NameError. \<^verbatim>\<open>prev_mass_frac[i]\<close> raises IndexError beyond the
  array.
\<close>

definition interp_mass_frac :: "real \<Rightarrow> timestep \<Rightarrow> timestep \<Rightarrow> nat \<Rightarrow> error + real" where
  "interp_mass_frac t_end p cur i =
     (if i < length (mass_fractions p)
      then np_interp t_end [time p, time cur] [mass_fractions p ! i, mass_fractions cur ! i]
             None None
      else Inl IndexError)"

definition interpolate_to_end :: "real \<Rightarrow> timestep option \<Rightarrow> timestep \<Rightarrow> error + timestep" where
  "interpolate_to_end t_end prev cur =
     (case prev of
        None \<Rightarrow> Inl NameError
      | Some p \<Rightarrow>
          (case np_interp t_end [time p, time cur] [temperature p, temperature cur] None None of
             Inl e \<Rightarrow> Inl e
           | Inr temp \<Rightarrow>
          (case np_interp t_end [time p, time cur] [pressure p, pressure cur] None None of
             Inl e \<Rightarrow> Inl e
           | Inr pres \<Rightarrow>
          (case np_interp t_end [time p, time cur] [volume p, volume cur] None None of
             Inl e \<Rightarrow> Inl e
           | Inr vol \<Rightarrow>
          (case collect (interp_mass_frac t_end p cur) [0 ..< length (mass_fractions cur)] of
             Inl e \<Rightarrow> Inl e
           | Inr mass_fracs \<Rightarrow>
               Inr \<lparr>time = t_end, temperature = temp, pressure = pres, volume = vol,
                    mass_fractions = mass_fracs\<rparr>)))))"

definition new_row :: "real \<Rightarrow> timestep option \<Rightarrow> timestep \<Rightarrow> error + timestep" where
  "new_row t_end prev cur =
     (if time cur > t_end then interpolate_to_end t_end prev cur else Inr cur)"

text \<open>
  \<^verbatim>\<open>while self.reac_net.time < self.time_end\<close>. The loop ends only when the
  collaborator's time reaches the end time, so it is a partial function: \<open>None\<close> is a
  run that never returns, \<open>Some (Inl e)\<close> a run that raises, \<open>Some (Inr table)\<close> a run
  that returns the rows written.
\<close>

partial_function (option) integrate ::
  "'r reactor_net \<Rightarrow> real \<Rightarrow> 'r \<Rightarrow> timestep option \<Rightarrow> timestep list \<Rightarrow> (error + timestep list) option"
where
  "integrate net t_end r prev table =
     (if net_time net r < t_end then
        (case net_step net t_end r of
           Inl e \<Rightarrow> Some (Inl e)
         | Inr r' \<Rightarrow>
             (case new_row t_end prev (current net r') of
                Inl e \<Rightarrow> Some (Inl e)
              | Inr row \<Rightarrow> integrate net t_end r' (Some (current net r')) (table @ [row])))
      else Some (Inr table))"

definition run_case :: "'r reactor_net \<Rightarrow> simulation \<Rightarrow> 'r \<Rightarrow> (error + timestep list) option" where
  "run_case net self r = integrate net (time_end self) r None [current net r]"

subsubsection \<open>process_results: the ignition delay\<close>

text \<open>
  Modelled from the spec: \<^verbatim>\<open>detect_peaks\<close> is imported from the module
  \<^verbatim>\<open>detect_peaks.py\<close>, which is not among the sources. The specification asks for
  the local maxima of the signal, as an ordered sequence of indices that is empty on a
  monotone or constant signal. \<open>process_results\<close> below takes the detector as a
  parameter; this one serves the concrete runs.
\<close>

definition detect_peaks :: "real list \<Rightarrow> nat list" where
  "detect_peaks x =
     filter (\<lambda>i. x ! (i - 1) < x ! i \<and> x ! (i + 1) \<le> x ! i) [1 ..< length x - 1]"

datatype quantity = Seconds real | NaN_seconds

record delays =
  simulated_ignition_delay :: quantity
  simulated_first_stage_delay :: quantity

text \<open>
  Lines 429 to 435: the time column is \<^verbatim>\<open>table.col('time')\<close>, the diagnostic channel
  a column of the table. With a species index \<open>k\<close> it is
  \<^verbatim>\<open>table.col('mass_fractions')[:, k]\<close>, an IndexError when the rows have no
  position \<open>k\<close>, and also when the target is still a string other than the two names.
\<close>

definition table_col_target :: "simulation \<Rightarrow> timestep list \<Rightarrow> error + real list" where
  "table_col_target self table =
     (if ignition_target self = PyStr ''pressure'' then Inr (map pressure table)
      else if ignition_target self = PyStr ''temperature'' then Inr (map temperature table)
      else
        (case ignition_target self of
           PyStr s \<Rightarrow> Inl IndexError
         | PyInt k \<Rightarrow>
             if list_all (\<lambda>row. k < length (mass_fractions row)) table
             then Inr (map (\<lambda>row. mass_fractions row ! k) table)
             else Inl IndexError))"

text \<open>
  Lines 438 to 448: the derivative for \<^verbatim>\<open>'d/dt max'\<close>, the detector, and the second
  attempt on the derivative when the detector found nothing and the type is
  \<^verbatim>\<open>'max'\<close>. The result is the channel in use and the peak indices.
\<close>

definition find_peaks ::
  "(real list \<Rightarrow> nat list) \<Rightarrow> string \<Rightarrow> real list \<Rightarrow> real list \<Rightarrow> error + real list \<times> nat list" where
  "find_peaks detect ign_type tcol target0 =
     (case (if ign_type = ''d/dt max'' then first_derivative tcol target0 else Inr target0) of
        Inl e \<Rightarrow> Inl e
      | Inr target \<Rightarrow>
          let ind = detect target
          in if length ind = 0 \<and> ign_type = ''max''
             then (case first_derivative tcol target of
                     Inl e \<Rightarrow> Inl e
                   | Inr target' \<Rightarrow> Inr (target', detect target'))
             else Inr (target, ind))"

text \<open>Line 451: \<^verbatim>\<open>max_ind = ind[np.argmax(target[ind])]\<close>.\<close>

definition max_peak :: "real list \<Rightarrow> nat list \<Rightarrow> error + nat" where
  "max_peak target ind =
     (case take_indices target ind of
        Inl e \<Rightarrow> Inl e
      | Inr vals \<Rightarrow> (case np_argmax vals of Inl e \<Rightarrow> Inl e | Inr k \<Rightarrow> Inr (ind ! k)))"

text \<open>
  Lines 461 to 463:
  \<^verbatim>\<open>time[ind[np.where((time[ind[ind <= max_ind]] - time_comp) > 0)]] - time_comp\<close>.
  The mask \<^verbatim>\<open>ind <= max_ind\<close> selects a sub-array of \<open>ind\<close>; \<^verbatim>\<open>np.where\<close> gives
  the positions, within that sub-array, of the times beyond \<open>time_comp\<close>; these
  positions then index \<open>ind\<close> itself.
\<close>

definition ign_delays :: "real list \<Rightarrow> nat list \<Rightarrow> nat \<Rightarrow> real \<Rightarrow> error + real list" where
  "ign_delays tcol ind max_ind time_comp =
     (case take_indices tcol (filter (\<lambda>p. p \<le> max_ind) ind) of
        Inl e \<Rightarrow> Inl e
      | Inr early \<Rightarrow>
          let positions = filter (\<lambda>j. early ! j - time_comp > 0) [0 ..< length early]
          in (case take_indices ind positions of
                Inl e \<Rightarrow> Inl e
              | Inr sel \<Rightarrow>
                  (case take_indices tcol sel of
                     Inl e \<Rightarrow> Inl e
                   | Inr ts \<Rightarrow> Inr (map (\<lambda>t. t - time_comp) ts))))"

text \<open>
  Lines 457 to 459: \<^verbatim>\<open>time_comp = 0.0\<close>, replaced by the compression time when the
  properties have one. Lines 465 to 474 are \<open>report\<close>.
\<close>

definition time_comp :: "simulation \<Rightarrow> real" where
  "time_comp self = (case compression_time self of None \<Rightarrow> 0 | Some tc \<Rightarrow> tc)"

definition report :: "real list \<Rightarrow> delays" where
  "report ds =
     \<lparr>simulated_ignition_delay = (if length ds > 0 then Seconds (last ds) else Seconds 0),
      simulated_first_stage_delay = (if length ds > 1 then Seconds (ds ! 0) else NaN_seconds)\<rparr>"

definition process_results ::
  "(real list \<Rightarrow> nat list) \<Rightarrow> simulation \<Rightarrow> timestep list \<Rightarrow> error + delays" where
  "process_results detect self table =
     (let tcol = map time table
      in (case table_col_target self table of
            Inl e \<Rightarrow> Inl e
          | Inr target0 \<Rightarrow>
          (case find_peaks detect (ignition_type self) tcol target0 of
            Inl e \<Rightarrow> Inl e
          | Inr (target, ind) \<Rightarrow>
          (case max_peak target ind of
            Inl e \<Rightarrow> Inl e
          | Inr max_ind \<Rightarrow>
              (case ign_delays tcol ind max_ind (time_comp self) of
                 Inl e \<Rightarrow> Inl e
               | Inr ds \<Rightarrow> Inr (report ds))))))"

subsection \<open>Reference notions and a synthetic stepper\<close>

text \<open>
  The value at \<open>t\<close> of the straight line through \<open>(a, fa)\<close> and \<open>(b, fb)\<close>.
\<close>

definition linear_interpolation :: "real \<Rightarrow> real \<Rightarrow> real \<Rightarrow> real \<Rightarrow> real \<Rightarrow> real" where
  "linear_interpolation t a b fa fb = fa + (fb - fa) * (t - a) / (b - a)"

text \<open>
  A reactor network for concrete runs: its state is the number of steps taken, every
  step advances the time by \<open>h\<close>, and the channels are simple functions of the step
  count. The mechanism has two species.
\<close>

definition synthetic_net :: "real \<Rightarrow> nat reactor_net" where
  "synthetic_net h =
     \<lparr>net_time = (\<lambda>n. h * real n),
      reac_T = (\<lambda>n. 300 + 100 * real n),
      thermo_P = (\<lambda>n. 1000 + 10 * real n),
      reac_volume = (\<lambda>n. 1 + real n),
      reac_Y = (\<lambda>n. [1 - real n / 10, real n / 10]),
      net_step = (\<lambda>t n. Inr (Suc n))\<rparr>"

definition case_with_end :: "real \<Rightarrow> simulation" where
  "case_with_end t =
     \<lparr>ignition_target = PyStr ''pressure'', ignition_type = ''d/dt max'', time_end = t,
      compression_time = None\<rparr>"

definition case_with_target :: "string \<Rightarrow> simulation" where
  "case_with_target spec =
     \<lparr>ignition_target = PyStr spec, ignition_type = ''max'', time_end = 1,
      compression_time = None\<rparr>"

text \<open>
  A table whose rows have the given times and pressures, and a case that looks for the
  largest pressure after a compression time of half a second.
\<close>

definition pressure_table :: "(real \<times> real) list \<Rightarrow> timestep list" where
  "pressure_table rows =
     map (\<lambda>(t, p). \<lparr>time = t, temperature = 300, pressure = p, volume = 1,
                     mass_fractions = [1, 0]\<rparr>) rows"

definition pressure_case :: "string \<Rightarrow> simulation" where
  "pressure_case ign_type =
     \<lparr>ignition_target = PyStr ''pressure'', ignition_type = ign_type, time_end = 5,
      compression_time = Some (1 / 2)\<rparr>"

text \<open>
  A gas for concrete runs: the density is \<open>P / T\<close>, the entropy is the temperature, and
  the density at entropy \<open>s\<close> and pressure \<open>p\<close> is \<open>p / s\<close>.
\<close>

definition toy_gas :: solution where
  "toy_gas =
     \<lparr>entropy_mass_TPX = (\<lambda>T P X. T),
      density_TPX = (\<lambda>T P X. P / T),
      density_SP = (\<lambda>s p X. p / s)\<rparr>"

text \<open>
  A rounding for concrete runs, coarser than that of doubles: to the nearest multiple of
  \<open>2^-20\<close> (\<open>2^20 = 1048576\<close>).
\<close>

definition round_to_grid :: "real \<Rightarrow> real" where
  "round_to_grid x = real_of_int \<lfloor>x * 1048576 + 1 / 2\<rfloor> / 1048576"

section \<open>Properties of first_derivative\<close>

lemma np_gradient_length: "np_gradient y dx eo = Inr out \<Longrightarrow> length out = length y"
  by (auto simp: np_gradient_def Let_def split: if_splits option.splits)

lemma first_derivative_length: "first_derivative x y = Inr d \<Longrightarrow> length d = length y"
  by (auto simp: first_derivative_def split: sum.splits dest: np_gradient_length)

lemma first_derivative_lengths:
  assumes "first_derivative x y = Inr d"
  shows "length d = length x" and "2 \<le> length x"
  using assms
  by (auto simp: first_derivative_def np_gradient_def Let_def split: sum.splits if_splits)

lemma first_derivative_defined:
  "length x = length y \<Longrightarrow> 2 \<le> length x \<Longrightarrow> \<exists>d. first_derivative x y = Inr d"
  by (simp add: first_derivative_def np_gradient_def Let_def)

lemma central_nth:
  assumes "i + 2 < length y"
  shows "map (\<lambda>(a, b). (a - b) / 2) (zip (drop 2 y) (take (length y - 2) y)) ! i =
     (y ! (i + 2) - y ! i) / 2"
  using assms by (simp add: add.commute)

lemma edges_nth:
  assumes "length inner = n - 2" and "3 \<le> n"
  shows "([a] @ inner @ [b]) ! 0 = a"
    and "([a] @ inner @ [b]) ! (n - 1) = b"
    and "0 < i \<Longrightarrow> i + 1 < n \<Longrightarrow> ([a] @ inner @ [b]) ! i = inner ! (i - 1)"
proof -
  show "([a] @ inner @ [b]) ! 0 = a" by simp
  have "length ([a] @ inner) = n - 1" using assms by simp
  then show "([a] @ inner @ [b]) ! (n - 1) = b"
    by (metis append.assoc nth_append_length)
  show "([a] @ inner @ [b]) ! i = inner ! (i - 1)" if pos: "0 < i" and bnd: "i + 1 < n"
  proof -
    from pos obtain k where k: "i = Suc k" by (cases i) auto
    then have "k < length inner" using bnd assms(1) by simp
    then show ?thesis using k by (simp add: nth_append)
  qed
qed

lemma np_gradient_first_order:
  "3 \<le> length y \<Longrightarrow>
   np_gradient y None 1 =
     Inr ([y ! 1 - y ! 0] @
          map (\<lambda>(a, b). (a - b) / 2) (zip (drop 2 y) (take (length y - 2) y)) @
          [y ! (length y - 1) - y ! (length y - 2)])"
  by (simp add: np_gradient_def Let_def)

lemma np_gradient_second_order:
  "3 \<le> length y \<Longrightarrow> length dx = length y \<Longrightarrow>
   np_gradient y (Some dx) 2 =
     Inr (map (\<lambda>(a, b). a / b)
           (zip ([- (3 * y ! 0 - 4 * y ! 1 + y ! 2) / 2] @
                 map (\<lambda>(a, b). (a - b) / 2) (zip (drop 2 y) (take (length y - 2) y)) @
                 [(3 * y ! (length y - 1) - 4 * y ! (length y - 2) + y ! (length y - 3)) / 2])
                dx))"
  by (simp add: np_gradient_def Let_def)

lemma first_derivative_nth:
  assumes "first_derivative x y = Inr d" and "3 \<le> length x"
  shows "0 < i \<Longrightarrow> i + 1 < length x \<Longrightarrow>
           d ! i = ((y ! (i + 1) - y ! (i - 1)) / 2) / ((x ! (i + 1) - x ! (i - 1)) / 2)"
    and "d ! 0 = (- (3 * y ! 0 - 4 * y ! 1 + y ! 2) / 2) / (x ! 1 - x ! 0)"
    and "d ! (length x - 1) =
           ((3 * y ! (length x - 1) - 4 * y ! (length x - 2) + y ! (length x - 3)) / 2) /
           (x ! (length x - 1) - x ! (length x - 2))"
proof -
  let ?n = "length x"
  let ?cx = "map (\<lambda>(a, b). (a - b) / 2) (zip (drop 2 x) (take (?n - 2) x))"
  let ?cy = "map (\<lambda>(a, b). (a - b) / 2) (zip (drop 2 y) (take (?n - 2) y))"
  let ?dx = "[x ! 1 - x ! 0] @ ?cx @ [x ! (?n - 1) - x ! (?n - 2)]"
  let ?out = "[- (3 * y ! 0 - 4 * y ! 1 + y ! 2) / 2] @ ?cy @
      [(3 * y ! (?n - 1) - 4 * y ! (?n - 2) + y ! (?n - 3)) / 2]"
  have lxy: "length y = ?n"
    using first_derivative_lengths(1) [OF assms(1)] first_derivative_length [OF assms(1)]
    by simp
  have dx: "np_gradient x None 1 = Inr ?dx"
    by (rule np_gradient_first_order [OF assms(2)])
  have ldx: "length ?dx = length y" using assms(2) lxy by simp
  have "np_gradient y (Some ?dx) 2 = Inr (map (\<lambda>(a, b). a / b) (zip ?out ?dx))"
    using np_gradient_second_order [of y ?dx] assms(2) lxy ldx by simp
  then have d: "d = map (\<lambda>(a, b). a / b) (zip ?out ?dx)"
    using assms(1) by (simp only: first_derivative_def dx sum.case) simp
  have lo: "length ?out = ?n" using assms(2) lxy by simp
  have ld: "length ?dx = ?n" using assms(2) by simp
  have nth: "d ! j = ?out ! j / ?dx ! j" if "j < ?n" for j
    unfolding d using that lo ld by (simp only: nth_map length_zip min.idem nth_zip prod.case)
  have lcx: "length ?cx = ?n - 2" by simp
  have lcy: "length ?cy = ?n - 2" using lxy by simp
  show "d ! i = ((y ! (i + 1) - y ! (i - 1)) / 2) / ((x ! (i + 1) - x ! (i - 1)) / 2)"
    if "0 < i" "i + 1 < ?n"
  proof -
    have i: "i < ?n" "i - 1 + 2 = i + 1" "i - 1 + 2 < ?n" using that by simp_all
    have "?cx ! (i - 1) = (x ! (i - 1 + 2) - x ! (i - 1)) / 2"
      using i(3) by (intro central_nth) simp
    moreover have "?cy ! (i - 1) = (y ! (i - 1 + 2) - y ! (i - 1)) / 2"
      using central_nth [of "i - 1" y] i(3) lxy by simp
    ultimately show ?thesis
      by (simp only: nth [OF i(1)] edges_nth(3) [OF lcx assms(2) that]
          edges_nth(3) [OF lcy assms(2) that] i(2))
  qed
  have "0 < ?n" using assms(2) by auto
  then show "d ! 0 = (- (3 * y ! 0 - 4 * y ! 1 + y ! 2) / 2) / (x ! 1 - x ! 0)"
    by (simp only: nth edges_nth(1) [OF lcx assms(2)] edges_nth(1) [OF lcy assms(2)])
  have "?n - 1 < ?n" using assms(2) by auto
  then show "d ! (?n - 1) =
           ((3 * y ! (?n - 1) - 4 * y ! (?n - 2) + y ! (?n - 3)) / 2) /
           (x ! (?n - 1) - x ! (?n - 2))"
    by (simp only: nth edges_nth(2) [OF lcx assms(2)] edges_nth(2) [OF lcy assms(2)])
qed

lemma first_derivative_linear_interior:
  assumes "sorted_wrt (<) x" and "3 \<le> length x"
    and "first_derivative x (map (\<lambda>t. m * t + c) x) = Inr d"
    and "0 < i" and "i + 1 < length x"
  shows "d ! i = m"
proof -
  define D where "D = x ! (i + 1) - x ! (i - 1)"
  have "x ! (i - 1) < x ! (i + 1)"
    using sorted_wrt_nth_less [OF assms(1), of "i - 1" "i + 1"] assms(4,5) by simp
  then have nz: "D \<noteq> 0" by (simp add: D_def)
  have "d ! i = ((m * x ! (i + 1) + c - (m * x ! (i - 1) + c)) / 2) / (D / 2)"
    using first_derivative_nth(1) [OF assms(3,2,4,5)] assms(4,5) by (simp add: D_def)
  also have "(m * x ! (i + 1) + c - (m * x ! (i - 1) + c)) / 2 = m * (D / 2)"
    by (simp add: D_def algebra_simps)
  also have "m * (D / 2) / (D / 2) = m" using nz by simp
  finally show ?thesis .
qed

lemma first_derivative_linear_first:
  assumes "sorted_wrt (<) x" and "3 \<le> length x"
    and "first_derivative x (map (\<lambda>t. m * t + c) x) = Inr d"
  shows "d ! 0 = m * (1 - ((x ! 2 - x ! 1) - (x ! 1 - x ! 0)) / (2 * (x ! 1 - x ! 0)))"
proof -
  define h where "h = x ! 1 - x ! 0"
  define k where "k = x ! 2 - x ! 1"
  have "x ! 0 < x ! 1" using sorted_wrt_nth_less [OF assms(1), of 0 1] assms(2) by simp
  then have nz: "h \<noteq> 0" by (simp add: h_def)
  have y: "map (\<lambda>t. m * t + c) x ! 0 = m * x ! 0 + c"
    "map (\<lambda>t. m * t + c) x ! 1 = m * x ! 1 + c"
    "map (\<lambda>t. m * t + c) x ! 2 = m * x ! 2 + c"
    using assms(2) by (simp_all only: nth_map)
  have "d ! 0 = (- (3 * (m * x ! 0 + c) - 4 * (m * x ! 1 + c) + (m * x ! 2 + c)) / 2) / h"
    using first_derivative_nth(2) [OF assms(3,2)] by (simp only: y h_def)
  also have "- (3 * (m * x ! 0 + c) - 4 * (m * x ! 1 + c) + (m * x ! 2 + c)) / 2 =
      m * (3 * h - k) / 2"
    by (simp add: h_def k_def algebra_simps)
  also have "m * (3 * h - k) / 2 / h = m * (1 - (k - h) / (2 * h))"
    using nz by (simp add: field_simps)
  finally show ?thesis by (simp only: h_def k_def)
qed

lemma first_derivative_linear_last:
  assumes "sorted_wrt (<) x" and "3 \<le> length x"
    and "first_derivative x (map (\<lambda>t. m * t + c) x) = Inr d"
  shows "d ! (length x - 1) =
     m * (1 + ((x ! (length x - 1) - x ! (length x - 2)) - (x ! (length x - 2) - x ! (length x - 3)))
                / (2 * (x ! (length x - 1) - x ! (length x - 2))))"
proof -
  let ?n = "length x"
  define h where "h = x ! (?n - 1) - x ! (?n - 2)"
  define k where "k = x ! (?n - 2) - x ! (?n - 3)"
  have "x ! (?n - 2) < x ! (?n - 1)"
    using sorted_wrt_nth_less [OF assms(1), of "?n - 2" "?n - 1"] assms(2) by simp
  then have nz: "h \<noteq> 0" by (simp add: h_def)
  have y: "map (\<lambda>t. m * t + c) x ! (?n - 1) = m * x ! (?n - 1) + c"
    "map (\<lambda>t. m * t + c) x ! (?n - 2) = m * x ! (?n - 2) + c"
    "map (\<lambda>t. m * t + c) x ! (?n - 3) = m * x ! (?n - 3) + c"
    using assms(2) by (simp_all only: nth_map)
  have "d ! (?n - 1) =
      ((3 * (m * x ! (?n - 1) + c) - 4 * (m * x ! (?n - 2) + c) + (m * x ! (?n - 3) + c)) / 2) / h"
    using first_derivative_nth(3) [OF assms(3,2)] by (simp only: y h_def)
  also have "(3 * (m * x ! (?n - 1) + c) - 4 * (m * x ! (?n - 2) + c) + (m * x ! (?n - 3) + c)) / 2 =
      m * (3 * h - k) / 2"
    by (simp add: h_def k_def algebra_simps)
  also have "m * (3 * h - k) / 2 / h = m * (1 + (h - k) / (2 * h))"
    using nz by (simp add: field_simps)
  finally show ?thesis by (simp only: h_def k_def)
qed

lemma first_derivative_linear_first_iff:
  assumes "sorted_wrt (<) x" and "3 \<le> length x"
    and "first_derivative x (map (\<lambda>t. m * t + c) x) = Inr d"
  shows "d ! 0 = m \<longleftrightarrow> m = 0 \<or> x ! 2 - x ! 1 = x ! 1 - x ! 0"
proof -
  define h where "h = x ! 1 - x ! 0"
  define k where "k = x ! 2 - x ! 1"
  have "x ! 0 < x ! 1" using sorted_wrt_nth_less [OF assms(1), of 0 1] assms(2) by simp
  then have nz: "h \<noteq> 0" by (simp add: h_def)
  have "d ! 0 = m * (1 - (k - h) / (2 * h))"
    using first_derivative_linear_first [OF assms] by (simp only: h_def k_def)
  also have "\<dots> = m - m * ((k - h) / (2 * h))" by (simp add: algebra_simps)
  finally have "d ! 0 = m \<longleftrightarrow> m * ((k - h) / (2 * h)) = 0" by simp
  also have "\<dots> \<longleftrightarrow> m = 0 \<or> k = h" using nz by simp
  finally show ?thesis by (simp only: h_def k_def)
qed

lemma first_derivative_linear_last_iff:
  assumes "sorted_wrt (<) x" and "3 \<le> length x"
    and "first_derivative x (map (\<lambda>t. m * t + c) x) = Inr d"
  shows "d ! (length x - 1) = m \<longleftrightarrow>
     m = 0 \<or> x ! (length x - 1) - x ! (length x - 2) = x ! (length x - 2) - x ! (length x - 3)"
proof -
  let ?n = "length x"
  define h where "h = x ! (?n - 1) - x ! (?n - 2)"
  define k where "k = x ! (?n - 2) - x ! (?n - 3)"
  have "x ! (?n - 2) < x ! (?n - 1)"
    using sorted_wrt_nth_less [OF assms(1), of "?n - 2" "?n - 1"] assms(2) by simp
  then have nz: "h \<noteq> 0" by (simp add: h_def)
  have "d ! (?n - 1) = m * (1 + (h - k) / (2 * h))"
    using first_derivative_linear_last [OF assms] by (simp only: h_def k_def)
  also have "\<dots> = m + m * ((h - k) / (2 * h))" by (simp add: algebra_simps)
  finally have "d ! (?n - 1) = m \<longleftrightarrow> m * ((h - k) / (2 * h)) = 0" by simp
  also have "\<dots> \<longleftrightarrow> m = 0 \<or> h = k" using nz by simp
  finally show ?thesis by (simp only: h_def k_def)
qed

text \<open>
  Under numpy 1.13 and later the same input gives other values again, the slope only at
  the first point.
\<close>

lemma first_derivative_coordinates_nonuniform:
  "first_derivative_coordinates [0, 1, 3] (map (\<lambda>t. 1 * t + 0) [0, 1, 3]) = Inr [1, 3, 5]"
  by (simp add: first_derivative_coordinates_def np_gradient_def np_gradient_coordinates_def upt_rec)

text \<open>
  C1. The specification gives the slope at every point of a linear signal, also on a
  non-uniform grid. On the strictly increasing grid \<open>0, 1, 3\<close> and the linear signal
  \<open>y = 1 * x + 0\<close>, first_derivative returns \<open>1 / 2\<close> at the first point and \<open>5 / 4\<close>
  at the last one; only the interior value is the slope 1. The lemmas above give the
  general picture: the interior values of a linear signal are always the slope, and an
  end value is the slope exactly when the two spacings next to that end are equal or
  the slope is 0.
\<close>

theorem first_derivative_linear_nonuniform:
  "first_derivative [0, 1, 3] (map (\<lambda>t. 1 * t + 0) [0, 1, 3]) = Inr [1 / 2, 1, 5 / 4]"
  by (simp add: first_derivative_def np_gradient_def)

section \<open>Properties of the volume history and of the profiles\<close>

lemma volumes_loop_ok:
  "(\<forall>p \<in> set ps. dens p \<noteq> 0) \<Longrightarrow>
   volumes_loop dens rho ps = Inr (map (\<lambda>p. rho / dens p) ps)"
  by (induction ps) simp_all

lemma sample_grid:
  "np_arange 0 (t_end + 1 / 20000) (1 / 20000) =
     map (\<lambda>i. real i / 20000) [0 ..< nat (\<lceil>t_end * 20000\<rceil> + 1)]"
proof -
  have "(t_end + 1 / 20000 - 0) / (1 / 20000) = t_end * 20000 + 1"
    by (simp add: field_simps)
  then show ?thesis by (simp add: np_arange_def)
qed

lemma grid_strictly_increasing: "sorted_wrt (<) (map (\<lambda>i. real i / 20000) [0 ..< n])"
  by (simp add: sorted_wrt_map sorted_wrt_upt)

lemma create_volume_history_grid:
  assumes "\<forall>i < nat (\<lceil>t_end * 20000\<rceil> + 1).
      density_SP gas (entropy_mass_TPX gas temp pres reactants)
        (pres * (pres_rise * (real i / 20000) + 1)) reactants \<noteq> 0"
  shows "create_volume_history gas temp pres reactants pres_rise t_end =
     Inr (map (\<lambda>i. real i / 20000) [0 ..< nat (\<lceil>t_end * 20000\<rceil> + 1)],
          map (\<lambda>i. density_TPX gas temp pres reactants /
                    density_SP gas (entropy_mass_TPX gas temp pres reactants)
                      (pres * (pres_rise * (real i / 20000) + 1)) reactants)
            [0 ..< nat (\<lceil>t_end * 20000\<rceil> + 1)])"
proof -
  let ?n = "nat (\<lceil>t_end * 20000\<rceil> + 1)"
  let ?s0 = "entropy_mass_TPX gas temp pres reactants"
  let ?rho0 = "density_TPX gas temp pres reactants"
  let ?grid = "map (\<lambda>i. real i / 20000) [0 ..< ?n]"
  let ?pressures = "map (\<lambda>t. pres * (pres_rise * t + 1)) ?grid"
  have samp: "sample_rising_pressure t_end pres 20000 pres_rise = Inr (?grid, ?pressures)"
    by (simp add: sample_rising_pressure_def Let_def sample_grid)
  have vol: "volumes_loop (\<lambda>p. density_SP gas ?s0 p reactants) ?rho0 ?pressures =
      Inr (map (\<lambda>p. ?rho0 / density_SP gas ?s0 p reactants) ?pressures)"
    using assms by (intro volumes_loop_ok) auto
  have "create_volume_history gas temp pres reactants pres_rise t_end =
      Inr (?grid, map (\<lambda>p. ?rho0 / density_SP gas ?s0 p reactants) ?pressures)"
    by (simp only: create_volume_history_def Let_def samp sum.case prod.case vol)
  then show ?thesis by (simp add: comp_def)
qed

lemma rounding_exact: "rounding (\<lambda>x. x)"
  by (simp add: rounding_def)

lemma rounding_facts:
  assumes "rounding fl"
  shows "x \<le> y \<Longrightarrow> fl x \<le> fl y" and "fl (fl x) = fl x"
    and "real k \<le> 2 ^ 53 \<Longrightarrow> fl (real k) = real k" and "fl 0 = 0" and "fl 1 = 1"
proof -
  show "x \<le> y \<Longrightarrow> fl x \<le> fl y" using assms by (simp add: rounding_def)
  show "fl (fl x) = fl x" using assms by (simp add: rounding_def)
  show k: "real k \<le> 2 ^ 53 \<Longrightarrow> fl (real k) = real k" for k
    using assms by (simp add: rounding_def)
  show "fl 0 = 0" using k [of 0] by simp
  show "fl 1 = 1" using k [of 1] by simp
qed

lemma np_arange_rounded_from_zero:
  assumes "rounding fl" and "fl d = d" and "d \<noteq> 0" and "fl stop = stop"
  shows "np_arange_rounded fl 0 stop d =
     Inr (map (\<lambda>i. fl (real i * d)) [0 ..< nat \<lceil>fl (stop / d)\<rceil>])"
proof -
  have f: "(\<lambda>i::nat. if i = 0 then 0 else if i = 1 then fl (0 + d)
                 else fl (0 + fl (real i * fl (fl (0 + d) - 0)))) = (\<lambda>i. fl (real i * d))"
    using assms(2) rounding_facts(2,4) [OF assms(1)] by (intro ext) simp
  have "np_arange_rounded fl 0 stop d =
      Inr (map (\<lambda>i. fl (real i * d)) [0 ..< nat \<lceil>fl (fl (stop - 0) / d)\<rceil>])"
    using assms(3) by (simp only: np_arange_rounded_def Let_def f if_False)
  then show ?thesis using assms(4) by simp
qed

lemma sample_rising_pressure_rounded_grid:
  assumes "rounding fl" and "sample_step fl \<noteq> 0"
  shows "sample_rising_pressure_rounded fl t_end pres 20000 pres_rise =
     Inr (map (sample_time fl) [0 ..< sample_count fl t_end],
          map (sample_pressure fl pres pres_rise) [0 ..< sample_count fl t_end])"
proof -
  have d: "fl (sample_step fl) = sample_step fl"
    unfolding sample_step_def by (rule rounding_facts(2) [OF assms(1)])
  have s: "fl (sample_stop fl t_end) = sample_stop fl t_end"
    unfolding sample_stop_def by (rule rounding_facts(2) [OF assms(1)])
  have "np_arange_rounded fl 0 (sample_stop fl t_end) (sample_step fl) =
      Inr (map (sample_time fl) [0 ..< sample_count fl t_end])"
    using np_arange_rounded_from_zero [OF assms(1) d assms(2) s]
    by (simp add: sample_time_def sample_count_def)
  then have "np_arange_rounded fl 0 (fl (t_end + fl (1 / 20000))) (fl (1 / 20000)) =
      Inr (map (sample_time fl) [0 ..< sample_count fl t_end])"
    by (simp add: sample_stop_def sample_step_def)
  then show ?thesis
    by (simp add: sample_rising_pressure_rounded_def sample_pressure_def comp_def)
qed

lemma volumes_loop_rounded_ok:
  "(\<forall>p \<in> set ps. dens p \<noteq> 0) \<Longrightarrow>
   volumes_loop_rounded fl dens rho ps = Inr (map (\<lambda>p. fl (rho / dens p)) ps)"
  by (induction ps) simp_all

lemma sample_time_bounds:
  assumes "rounding fl" and "0 < sample_step fl"
    and "fl (sample_stop fl t_end / sample_step fl) \<le> 2 ^ 53"
    and "i < sample_count fl t_end"
  shows "0 \<le> sample_time fl i" and "sample_time fl i \<le> sample_stop fl t_end"
proof -
  let ?d = "sample_step fl"
  let ?stop = "sample_stop fl t_end"
  let ?q = "fl (?stop / ?d)"
  have "0 \<le> real i * ?d" using assms(2) by simp
  then have "fl 0 \<le> fl (real i * ?d)" by (rule rounding_facts(1) [OF assms(1)])
  then show "0 \<le> sample_time fl i"
    by (simp add: sample_time_def rounding_facts(4) [OF assms(1)])
  have "int i < \<lceil>?q\<rceil>" using assms(4) by (simp add: sample_count_def)
  then have iq: "real i < ?q" by (simp add: less_ceiling_iff)
  then have i53: "real i \<le> 2 ^ 53" using assms(3) by simp
  have "real i * ?d \<le> ?stop"
  proof (rule ccontr)
    assume "\<not> real i * ?d \<le> ?stop"
    then have "?stop / ?d \<le> real i" using assms(2) by (simp add: field_simps)
    then have "?q \<le> fl (real i)" by (rule rounding_facts(1) [OF assms(1)])
    then have "?q \<le> real i" by (simp add: rounding_facts(3) [OF assms(1) i53])
    then show False using iq by simp
  qed
  then have "fl (real i * ?d) \<le> fl ?stop" by (rule rounding_facts(1) [OF assms(1)])
  then show "sample_time fl i \<le> ?stop"
    by (simp add: sample_time_def sample_stop_def rounding_facts(2) [OF assms(1)])
qed


lemma create_volume_history_rounded_exact:
  "create_volume_history_rounded (\<lambda>x. x) gas temp pres reactants pres_rise t_end =
   create_volume_history gas temp pres reactants pres_rise t_end"
proof -
  have v: "volumes_loop_rounded (\<lambda>x. x) dens rho ps = volumes_loop dens rho ps" for dens rho ps
    by (induction ps) simp_all
  have "(if i = 0 then 0 else if i = 1 then 0 + d else 0 + real i * (0 + d - 0)) = 0 + real i * d"
    for i :: nat and d :: real
    by simp
  then have a: "np_arange_rounded (\<lambda>x. x) 0 stop (1 / 20000) = Inr (np_arange 0 stop (1 / 20000))"
    for stop
    by (simp add: np_arange_rounded_def np_arange_def Let_def)
  show ?thesis
    by (simp add: create_volume_history_rounded_def create_volume_history_def
        sample_rising_pressure_rounded_def sample_rising_pressure_def a v Let_def)
qed

lemma rounding_round_to_grid: "rounding round_to_grid"
proof -
  have mono: "round_to_grid x \<le> round_to_grid y" if "x \<le> y" for x y
  proof -
    have "\<lfloor>x * 1048576 + 1 / 2\<rfloor> \<le> \<lfloor>y * 1048576 + 1 / 2\<rfloor>"
      using that by (intro floor_mono) simp
    then show ?thesis by (simp add: round_to_grid_def divide_right_mono)
  qed
  have grid: "round_to_grid (real_of_int k / 1048576) = real_of_int k / 1048576" for k
  proof -
    have "\<lfloor>real_of_int k + 1 / 2\<rfloor> = k" by linarith
    then show ?thesis by (simp add: round_to_grid_def)
  qed
  have idem: "round_to_grid (round_to_grid x) = round_to_grid x" for x
    unfolding round_to_grid_def [of x] by (rule grid)
  have nat: "round_to_grid (real k) = real k" for k :: nat
    using grid [of "int k * 1048576"] by simp
  show ?thesis
    unfolding rounding_def using mono idem nat by blast
qed

text \<open>
  C8. In double arithmetic, with non-zero densities at the sampled
  pressures, create_volume_history samples on the grid \<open>t_i = i * dt\<close>, \<open>dt = 1 / 20000\<close>,
  for \<open>i < n\<close>, where \<open>n\<close> is the ceiling of \<open>stop / dt\<close> and \<open>stop = time_end + dt\<close>,
  each operation rounded. Every sample lies in the closed interval from 0 to the stop
  value \<open>time_end + 1 / 20000\<close>; the pressure at the sample \<open>t\<close> is \<open>P0 * (A * t + 1)\<close>
  and the volume is the initial density divided by the density at the initial entropy
  and that pressure. The samples are thus not confined to \<open>[0, time_end]\<close>, and the
  rounding decides how many there are.
\<close>

theorem create_volume_history_samples:
  assumes "rounding fl" and "0 < fl (1 / 20000)"
    and "fl (fl (t_end + fl (1 / 20000)) / fl (1 / 20000)) \<le> 2 ^ 53"
    and "\<forall>i < sample_count fl t_end.
      density_SP gas (entropy_mass_TPX gas temp pres reactants)
        (sample_pressure fl pres pres_rise i) reactants \<noteq> 0"
  shows "sample_count fl t_end = nat \<lceil>fl (fl (t_end + fl (1 / 20000)) / fl (1 / 20000))\<rceil>
    \<and> sample_rising_pressure_rounded fl t_end pres 20000 pres_rise =
        Inr (map (sample_time fl) [0 ..< sample_count fl t_end],
             map (sample_pressure fl pres pres_rise) [0 ..< sample_count fl t_end])
    \<and> create_volume_history_rounded fl gas temp pres reactants pres_rise t_end =
        Inr (map (sample_time fl) [0 ..< sample_count fl t_end],
             map (\<lambda>i. fl (density_TPX gas temp pres reactants /
                         density_SP gas (entropy_mass_TPX gas temp pres reactants)
                           (sample_pressure fl pres pres_rise i) reactants))
               [0 ..< sample_count fl t_end])
    \<and> (\<forall>i < sample_count fl t_end.
          sample_time fl i = fl (real i * fl (1 / 20000))
          \<and> sample_pressure fl pres pres_rise i =
              fl (pres * fl (fl (pres_rise * sample_time fl i) + 1))
          \<and> 0 \<le> sample_time fl i
          \<and> sample_time fl i \<le> fl (t_end + fl (1 / 20000)))"
proof -
  let ?n = "sample_count fl t_end"
  let ?s0 = "entropy_mass_TPX gas temp pres reactants"
  let ?rho0 = "density_TPX gas temp pres reactants"
  have pos: "0 < sample_step fl" using assms(2) by (simp add: sample_step_def)
  then have nz: "sample_step fl \<noteq> 0" by simp
  have big: "fl (sample_stop fl t_end / sample_step fl) \<le> 2 ^ 53"
    using assms(3) by (simp add: sample_stop_def sample_step_def)
  have cnt: "?n = nat \<lceil>fl (fl (t_end + fl (1 / 20000)) / fl (1 / 20000))\<rceil>"
    by (simp add: sample_count_def sample_stop_def sample_step_def)
  have samp: "sample_rising_pressure_rounded fl t_end pres 20000 pres_rise =
        Inr (map (sample_time fl) [0 ..< ?n], map (sample_pressure fl pres pres_rise) [0 ..< ?n])"
    by (rule sample_rising_pressure_rounded_grid [OF assms(1) nz])
  have vol: "volumes_loop_rounded fl (\<lambda>p. density_SP gas ?s0 p reactants) ?rho0
        (map (sample_pressure fl pres pres_rise) [0 ..< ?n]) =
      Inr (map (\<lambda>p. fl (?rho0 / density_SP gas ?s0 p reactants))
            (map (sample_pressure fl pres pres_rise) [0 ..< ?n]))"
    using assms(4) by (intro volumes_loop_rounded_ok) auto
  have "create_volume_history_rounded fl gas temp pres reactants pres_rise t_end =
      Inr (map (sample_time fl) [0 ..< ?n],
           map (\<lambda>p. fl (?rho0 / density_SP gas ?s0 p reactants))
             (map (sample_pressure fl pres pres_rise) [0 ..< ?n]))"
    by (simp only: create_volume_history_rounded_def Let_def samp sum.case prod.case vol)
  then have cvh: "create_volume_history_rounded fl gas temp pres reactants pres_rise t_end =
        Inr (map (sample_time fl) [0 ..< ?n],
             map (\<lambda>i. fl (?rho0 / density_SP gas ?s0 (sample_pressure fl pres pres_rise i) reactants))
               [0 ..< ?n])"
    by (simp add: comp_def)
  have pt: "sample_time fl i = fl (real i * fl (1 / 20000))
      \<and> sample_pressure fl pres pres_rise i = fl (pres * fl (fl (pres_rise * sample_time fl i) + 1))
      \<and> 0 \<le> sample_time fl i \<and> sample_time fl i \<le> fl (t_end + fl (1 / 20000))"
    if "i < ?n" for i
    using sample_time_bounds [OF assms(1) pos big that]
    by (simp add: sample_time_def sample_pressure_def sample_step_def sample_stop_def)
  show ?thesis using cnt samp cvh pt by blast
qed

lemma coarse_count: "sample_count round_to_grid (1 / 10000) = 4"
  by (simp add: sample_count_def sample_stop_def sample_step_def round_to_grid_def)

lemma coarse_times:
  "sample_time round_to_grid 0 = 0" "sample_time round_to_grid 1 = 52 / 1048576"
  "sample_time round_to_grid 2 = 104 / 1048576" "sample_time round_to_grid 3 = 156 / 1048576"
  by (simp_all add: sample_time_def sample_step_def round_to_grid_def)

lemma coarse_pressures:
  "sample_pressure round_to_grid 1000 10 0 = 1000"
  "sample_pressure round_to_grid 1000 10 1 = 1049096000 / 1048576"
  "sample_pressure round_to_grid 1000 10 2 = 1049616000 / 1048576"
  "sample_pressure round_to_grid 1000 10 3 = 1050136000 / 1048576"
  unfolding sample_pressure_def coarse_times by (simp_all add: round_to_grid_def)

theorem create_volume_history_samples_witness:
  "rounding round_to_grid
   \<and> 0 < round_to_grid (1 / 20000)
   \<and> round_to_grid (round_to_grid (1 / 10000 + round_to_grid (1 / 20000)) / round_to_grid (1 / 20000))
       \<le> 2 ^ 53
   \<and> sample_count round_to_grid (1 / 10000) = 4
   \<and> create_volume_history_rounded round_to_grid toy_gas 300 1000 ''H2:1'' 10 (1 / 10000) =
       Inr ([0, 52 / 1048576, 104 / 1048576, 156 / 1048576],
            [1, 1048056 / 1048576, 1047537 / 1048576, 1047018 / 1048576])
   \<and> round_to_grid (1 / 10000 + round_to_grid (1 / 20000)) = 157 / 1048576
   \<and> (1 / 10000 :: real) < 156 / 1048576 \<and> (156 / 1048576 :: real) \<le> 157 / 1048576"
proof -
  have h2: "0 < round_to_grid (1 / 20000)" by (simp add: round_to_grid_def)
  have h3: "round_to_grid (round_to_grid (1 / 10000 + round_to_grid (1 / 20000)) /
      round_to_grid (1 / 20000)) \<le> 2 ^ 53"
    by (simp add: round_to_grid_def)
  have idx: "i < 4 \<longleftrightarrow> i = 0 \<or> i = 1 \<or> i = 2 \<or> i = 3" for i :: nat by auto
  have h4: "\<forall>i < sample_count round_to_grid (1 / 10000).
      density_SP toy_gas (entropy_mass_TPX toy_gas 300 1000 ''H2:1'')
        (sample_pressure round_to_grid 1000 10 i) ''H2:1'' \<noteq> 0"
    unfolding coarse_count by (auto simp: idx coarse_pressures toy_gas_def simp del: One_nat_def)
  have up: "[0 ..< 4] = [0, 1, 2, 3 :: nat]" by (simp add: upt_rec)
  have vols: "round_to_grid (1000 / 300 / (1000 / 300)) = 1"
    "round_to_grid (1000 / 300 / (1049096000 / 1048576 / 300)) = 1048056 / 1048576"
    "round_to_grid (1000 / 300 / (1049616000 / 1048576 / 300)) = 1047537 / 1048576"
    "round_to_grid (1000 / 300 / (1050136000 / 1048576 / 300)) = 1047018 / 1048576"
    by (simp_all add: round_to_grid_def)
  from create_volume_history_samples [OF rounding_round_to_grid h2 h3 h4]
  have "create_volume_history_rounded round_to_grid toy_gas 300 1000 ''H2:1'' 10 (1 / 10000) =
        Inr (map (sample_time round_to_grid) [0 ..< sample_count round_to_grid (1 / 10000)],
             map (\<lambda>i. round_to_grid (density_TPX toy_gas 300 1000 ''H2:1'' /
                         density_SP toy_gas (entropy_mass_TPX toy_gas 300 1000 ''H2:1'')
                           (sample_pressure round_to_grid 1000 10 i) ''H2:1''))
               [0 ..< sample_count round_to_grid (1 / 10000)])"
    by blast
  then have "create_volume_history_rounded round_to_grid toy_gas 300 1000 ''H2:1'' 10 (1 / 10000) =
       Inr ([0, 52 / 1048576, 104 / 1048576, 156 / 1048576],
            [1, 1048056 / 1048576, 1047537 / 1048576, 1047018 / 1048576])"
    unfolding coarse_count up
    by (simp only: list.map coarse_times coarse_pressures toy_gas_def solution.simps vols)
  then show ?thesis
    using rounding_round_to_grid h2 h3 coarse_count by (simp add: round_to_grid_def)
qed

text \<open>
  In exact arithmetic, at the end time \<open>3 / 40000\<close>, the third sample \<open>1 / 10000\<close> is
  beyond the end time.
\<close>

theorem create_volume_history_beyond_end:
  "create_volume_history toy_gas 300 1000 ''H2:1'' 10 (3 / 40000) =
     Inr ([0, 1 / 20000, 1 / 10000], [1, 2000 / 2001, 1000 / 1001])
   \<and> (3 / 40000 :: real) < 1 / 10000"
proof -
  have "\<lceil>(3 / 40000 + 1 / 20000 - 0) / (1 / 20000) :: real\<rceil> = 3" by simp
  then have "np_arange 0 (3 / 40000 + 1 / 20000) (1 / 20000) = [0, 1 / 20000, 1 / 10000]"
    unfolding np_arange_def by (simp add: upt_rec)
  then show ?thesis
    by (simp add: create_volume_history_def sample_rising_pressure_def toy_gas_def)
qed

lemma np_interp_outside:
  assumes "xp \<noteq> []" and "length fp = length xp" and "x < hd xp \<or> last xp < x"
  shows "np_interp x xp fp (Some 0) (Some 0) = Inr 0"
  using assms by (auto simp: np_interp_def Let_def hd_conv_nth last_conv_nth)

lemma scan_index:
  assumes "sorted_wrt (<) (xp :: real list)" and "j + 1 < length xp"
    and "xp ! j \<le> x" and "x < xp ! (j + 1)"
  shows "length (takeWhile (\<lambda>a. a \<le> x) (tl xp)) = j"
proof -
  have "takeWhile (\<lambda>a. a \<le> x) (tl xp) = take j (tl xp)"
  proof (rule takeWhile_eq_take_P_nth)
    fix i assume "i < j" "i < length (tl xp)"
    then have "xp ! (i + 1) \<le> xp ! j"
      using assms(1,2) by (intro sorted_nth_mono) (auto intro: strict_sorted_imp_sorted)
    then show "tl xp ! i \<le> x"
      using assms(3) \<open>i < length (tl xp)\<close> by (simp add: nth_tl)
  next
    assume "j < length (tl xp)"
    then show "\<not> tl xp ! j \<le> x" using assms(4) by (simp add: nth_tl)
  qed
  then show ?thesis using assms(2) by simp
qed

lemma np_interp_between:
  assumes "sorted_wrt (<) xp" and "length fp = length xp" and "j + 1 < length xp"
    and "xp ! j \<le> x" and "x < xp ! (j + 1)"
  shows "np_interp x xp fp left right =
     Inr (linear_interpolation x (xp ! j) (xp ! (j + 1)) (fp ! j) (fp ! (j + 1)))"
proof -
  have srt: "sorted xp" using assms(1) by (rule strict_sorted_imp_sorted)
  have "xp ! 0 \<le> xp ! j" using srt assms(3) by (intro sorted_nth_mono) auto
  then have lo: "\<not> x < xp ! 0" using assms(4) by simp
  have "xp ! (j + 1) \<le> xp ! (length xp - 1)"
    using srt assms(3) by (intro sorted_nth_mono) auto
  then have hi: "\<not> x > xp ! (length xp - 1)" using assms(5) by simp
  have ne: "xp \<noteq> []" using assms(3) by auto
  have j: "length (takeWhile (\<lambda>a. a \<le> x) (tl xp)) = j"
    by (rule scan_index [OF assms(1,3,4,5)])
  have "j \<noteq> length xp - 1" using assms(3) by simp
  then show ?thesis
    using ne lo hi assms(2)
    by (simp add: np_interp_def Let_def j linear_interpolation_def)
qed

lemma np_interp_last:
  assumes "sorted_wrt (<) (xp :: real list)" and "length fp = length xp" and "xp \<noteq> []"
  shows "np_interp (last xp) xp fp left right = Inr (last fp)"
proof -
  have srt: "sorted xp" using assms(1) by (rule strict_sorted_imp_sorted)
  have lastn: "last xp = xp ! (length xp - 1)" using assms(3) by (rule last_conv_nth)
  have "xp ! 0 \<le> xp ! (length xp - 1)" using srt assms(3) by (intro sorted_nth_mono) auto
  then have lo: "\<not> last xp < xp ! 0" using lastn by simp
  have "\<forall>a \<in> set (tl xp). a \<le> last xp"
  proof
    fix a assume "a \<in> set (tl xp)"
    then have "a \<in> set xp" by (rule list.set_sel(2) [OF assms(3)])
    then obtain i where "i < length xp" "xp ! i = a" by (auto simp: in_set_conv_nth)
    then show "a \<le> last xp" using srt lastn sorted_nth_mono [of xp i "length xp - 1"] by auto
  qed
  then have tw: "takeWhile (\<lambda>a. a \<le> last xp) (tl xp) = tl xp"
    by (simp add: takeWhile_eq_all_conv)
  have j: "length (takeWhile (\<lambda>a. a \<le> last xp) (tl xp)) = length xp - 1"
    unfolding tw by simp
  have hi: "\<not> xp ! (length xp - 1) < last xp" using lastn by simp
  have "fp \<noteq> []" using assms(2,3) by auto
  then have "fp ! (length xp - 1) = last fp" using assms(2) by (simp add: last_conv_nth)
  then show ?thesis
    using assms(2,3) lo hi by (simp add: np_interp_def Let_def j)
qed

lemma VolumeProfile_init_Inr:
  assumes "VolumeProfile_init ptime pvolume = Inr prof"
  shows "pvolume \<noteq> []" and "times_arr prof = ptime"
    and "first_derivative ptime (map (\<lambda>v. v / pvolume ! 0) pvolume) = Inr (velocity prof)"
  using assms by (auto simp: VolumeProfile_init_def Let_def split: if_splits sum.splits)

lemma create_volume_history_times:
  assumes "create_volume_history gas temp pres reactants pres_rise t_end = Inr (ts, vols)"
  shows "ts = map (\<lambda>i. real i / 20000) [0 ..< nat (\<lceil>t_end * 20000\<rceil> + 1)]"
  using assms
  by (auto simp: create_volume_history_def sample_rising_pressure_def Let_def sample_grid
      split: sum.splits)

lemma PressureRiseProfile_init_Inr:
  assumes "PressureRiseProfile_init gas temp pres reactants pres_rise t_end = Inr prof"
  shows "times_arr prof = map (\<lambda>i. real i / 20000) [0 ..< nat (\<lceil>t_end * 20000\<rceil> + 1)]"
    and "\<exists>vols. create_volume_history gas temp pres reactants pres_rise t_end =
            Inr (times_arr prof, vols)
          \<and> first_derivative (times_arr prof) vols = Inr (velocity prof)"
proof -
  from assms obtain ts vols vel where
    cvh: "create_volume_history gas temp pres reactants pres_rise t_end = Inr (ts, vols)"
    and fd: "first_derivative ts vols = Inr vel"
    and prof: "prof = \<lparr>times_arr = ts, velocity = vel\<rparr>"
    by (auto simp: PressureRiseProfile_init_def split: sum.splits prod.splits)
  show "times_arr prof = map (\<lambda>i. real i / 20000) [0 ..< nat (\<lceil>t_end * 20000\<rceil> + 1)]"
    using create_volume_history_times [OF cvh] prof by simp
  show "\<exists>vols. create_volume_history gas temp pres reactants pres_rise t_end =
            Inr (times_arr prof, vols)
          \<and> first_derivative (times_arr prof) vols = Inr (velocity prof)"
    using cvh fd prof by simp
qed

lemma profile_query:
  assumes "first_derivative (times_arr prof) vols = Inr (velocity prof)"
  shows "(t < hd (times_arr prof) \<or> last (times_arr prof) < t \<longrightarrow> profile_call prof t = Inr 0)
     \<and> (sorted_wrt (<) (times_arr prof) \<longrightarrow>
          profile_call prof (last (times_arr prof)) = Inr (last (velocity prof))
          \<and> (\<forall>j. j + 1 < length (times_arr prof) \<and> times_arr prof ! j \<le> t
                  \<and> t < times_arr prof ! (j + 1) \<longrightarrow>
               profile_call prof t =
                 Inr (linear_interpolation t (times_arr prof ! j) (times_arr prof ! (j + 1))
                        (velocity prof ! j) (velocity prof ! (j + 1)))))"
proof -
  have len: "length (velocity prof) = length (times_arr prof)"
    and two: "2 \<le> length (times_arr prof)"
    using first_derivative_lengths [OF assms] by simp_all
  have ne: "times_arr prof \<noteq> []" using two by auto
  show ?thesis
    unfolding profile_call_def
    using np_interp_outside [OF ne len] np_interp_last [OF _ len ne] np_interp_between [OF _ len]
    by blast
qed

text \<open>
  C7. A VolumeProfile built from a time-volume history stores the times and, as
  velocity, first_derivative of the volumes divided by the first volume (a sequence
  that starts at 1 when the first volume is not 0). For a VolumeProfile and for a
  PressureRiseProfile alike, a call at a time before the first or after the last sample
  time returns 0, and on strictly increasing sample times a call at a time \<open>t\<close> with
  \<open>times[j] \<le> t < times[j+1]\<close> returns the linear interpolation of the velocity between
  the two samples, and a call at the last sample time the last velocity. The sample
  times of a PressureRiseProfile are strictly increasing.
\<close>

theorem profile_contract:
  assumes "VolumeProfile_init ptime pvolume = Inr vp"
    and "PressureRiseProfile_init gas temp pres reactants pres_rise t_end = Inr pp"
  shows "times_arr vp = ptime
    \<and> first_derivative ptime (map (\<lambda>v. v / pvolume ! 0) pvolume) = Inr (velocity vp)
    \<and> (pvolume ! 0 \<noteq> 0 \<longrightarrow> map (\<lambda>v. v / pvolume ! 0) pvolume ! 0 = 1)
    \<and> (\<forall>prof t. prof = vp \<or> prof = pp \<longrightarrow>
          (t < hd (times_arr prof) \<or> last (times_arr prof) < t \<longrightarrow> profile_call prof t = Inr 0)
          \<and> (sorted_wrt (<) (times_arr prof) \<longrightarrow>
               profile_call prof (last (times_arr prof)) = Inr (last (velocity prof))
               \<and> (\<forall>j. j + 1 < length (times_arr prof) \<and> times_arr prof ! j \<le> t
                       \<and> t < times_arr prof ! (j + 1) \<longrightarrow>
                    profile_call prof t =
                      Inr (linear_interpolation t (times_arr prof ! j) (times_arr prof ! (j + 1))
                             (velocity prof ! j) (velocity prof ! (j + 1))))))
    \<and> sorted_wrt (<) (times_arr pp)"
proof -
  note vp = VolumeProfile_init_Inr [OF assms(1)]
  have a: "times_arr vp = ptime" by (rule vp(2))
  have b: "first_derivative ptime (map (\<lambda>v. v / pvolume ! 0) pvolume) = Inr (velocity vp)"
    by (rule vp(3))
  have c: "pvolume ! 0 \<noteq> 0 \<longrightarrow> map (\<lambda>v. v / pvolume ! 0) pvolume ! 0 = 1"
    using vp(1) by simp
  have qv: "first_derivative (times_arr vp) (map (\<lambda>v. v / pvolume ! 0) pvolume) = Inr (velocity vp)"
    using a b by simp
  from PressureRiseProfile_init_Inr(2) [OF assms(2)] obtain vols where
    qp: "first_derivative (times_arr pp) vols = Inr (velocity pp)" by blast
  have e: "sorted_wrt (<) (times_arr pp)"
    unfolding PressureRiseProfile_init_Inr(1) [OF assms(2)] by (rule grid_strictly_increasing)
  have d: "\<forall>prof t. prof = vp \<or> prof = pp \<longrightarrow>
          (t < hd (times_arr prof) \<or> last (times_arr prof) < t \<longrightarrow> profile_call prof t = Inr 0)
          \<and> (sorted_wrt (<) (times_arr prof) \<longrightarrow>
               profile_call prof (last (times_arr prof)) = Inr (last (velocity prof))
               \<and> (\<forall>j. j + 1 < length (times_arr prof) \<and> times_arr prof ! j \<le> t
                       \<and> t < times_arr prof ! (j + 1) \<longrightarrow>
                    profile_call prof t =
                      Inr (linear_interpolation t (times_arr prof ! j) (times_arr prof ! (j + 1))
                             (velocity prof ! j) (velocity prof ! (j + 1)))))"
    using profile_query [OF qv] profile_query [OF qp] by blast
  show ?thesis using a b c d e by blast
qed

lemma VolumeProfile_example:
  "VolumeProfile_init [0, 1, 3] [2, 4, 8] = Inr \<lparr>times_arr = [0, 1, 3], velocity = [1 / 2, 1, 5 / 4]\<rparr>"
  by (simp add: VolumeProfile_init_def first_derivative_def np_gradient_def)

lemma PressureRiseProfile_example:
  "\<exists>pp. PressureRiseProfile_init toy_gas 300 1000 ''H2:1'' 10 (1 / 10000) = Inr pp"
proof -
  have h: "\<forall>i < nat (\<lceil>1 / 10000 * 20000 :: real\<rceil> + 1).
      density_SP toy_gas (entropy_mass_TPX toy_gas 300 1000 ''H2:1'')
        (1000 * (10 * (real i / 20000) + 1)) ''H2:1'' \<noteq> 0"
    by (simp add: toy_gas_def add_nonneg_eq_0_iff)
  obtain ts vols where cvh: "create_volume_history toy_gas 300 1000 ''H2:1'' 10 (1 / 10000) = Inr (ts, vols)"
    and l: "length ts = 3" "length vols = 3"
    using create_volume_history_grid [OF h] by simp
  obtain d where "first_derivative ts vols = Inr d"
    using first_derivative_defined [of ts vols] l by auto
  then show ?thesis by (simp add: PressureRiseProfile_init_def cvh)
qed

theorem profile_contract_witness:
  "\<exists>pp. VolumeProfile_init [0, 1, 3] [2, 4, 8] =
          Inr \<lparr>times_arr = [0, 1, 3], velocity = [1 / 2, 1, 5 / 4]\<rparr>
     \<and> PressureRiseProfile_init toy_gas 300 1000 ''H2:1'' 10 (1 / 10000) = Inr pp
     \<and> map (\<lambda>v. v / [2, 4, 8] ! 0) [2, 4, 8] = [1, 2, 4 :: real]
     \<and> profile_call \<lparr>times_arr = [0, 1, 3], velocity = [1 / 2, 1, 5 / 4]\<rparr> (- 1) = Inr 0
     \<and> profile_call \<lparr>times_arr = [0, 1, 3], velocity = [1 / 2, 1, 5 / 4]\<rparr> 4 = Inr 0
     \<and> profile_call \<lparr>times_arr = [0, 1, 3], velocity = [1 / 2, 1, 5 / 4]\<rparr> 2 = Inr (9 / 8)
     \<and> profile_call \<lparr>times_arr = [0, 1, 3], velocity = [1 / 2, 1, 5 / 4]\<rparr> 3 = Inr (5 / 4)
     \<and> times_arr pp = [0, 1 / 20000, 1 / 10000]
     \<and> profile_call pp (- 1) = Inr 0
     \<and> profile_call pp 1 = Inr 0
     \<and> profile_call pp (1 / 10000) = Inr (last (velocity pp))"
proof -
  let ?vp = "\<lparr>times_arr = [0, 1, 3], velocity = [1 / 2, 1, 5 / 4]\<rparr>"
  obtain pp where pp: "PressureRiseProfile_init toy_gas 300 1000 ''H2:1'' 10 (1 / 10000) = Inr pp"
    using PressureRiseProfile_example by blast
  note c = profile_contract [OF VolumeProfile_example pp]
  have ts: "times_arr pp = [0, 1 / 20000, 1 / 10000]"
    using PressureRiseProfile_init_Inr(1) [OF pp] by (simp add: upt_rec)
  have q: "(t < hd (times_arr prof) \<or> last (times_arr prof) < t \<longrightarrow> profile_call prof t = Inr 0)
          \<and> (sorted_wrt (<) (times_arr prof) \<longrightarrow>
               profile_call prof (last (times_arr prof)) = Inr (last (velocity prof))
               \<and> (\<forall>j. j + 1 < length (times_arr prof) \<and> times_arr prof ! j \<le> t
                       \<and> t < times_arr prof ! (j + 1) \<longrightarrow>
                    profile_call prof t =
                      Inr (linear_interpolation t (times_arr prof ! j) (times_arr prof ! (j + 1))
                             (velocity prof ! j) (velocity prof ! (j + 1)))))"
    if "prof = ?vp \<or> prof = pp" for prof t
    using c that by blast
  have v1: "profile_call ?vp (- 1) = Inr 0" using q [of ?vp "- 1"] by simp
  have v2: "profile_call ?vp 4 = Inr 0" using q [of ?vp 4] by simp
  have "sorted_wrt (<) (times_arr ?vp)" by simp
  with q [of ?vp 2] have "1 + 1 < length (times_arr ?vp) \<and> times_arr ?vp ! 1 \<le> 2
        \<and> 2 < times_arr ?vp ! (1 + 1) \<longrightarrow>
      profile_call ?vp 2 =
        Inr (linear_interpolation 2 (times_arr ?vp ! 1) (times_arr ?vp ! (1 + 1))
               (velocity ?vp ! 1) (velocity ?vp ! (1 + 1)))"
    by blast
  then have v3: "profile_call ?vp 2 = Inr (9 / 8)"
    by (simp add: linear_interpolation_def)
  have v4: "profile_call ?vp 3 = Inr (5 / 4)" using q [of ?vp 3] by simp
  have p1: "profile_call pp (- 1) = Inr 0" using q [of pp "- 1"] ts by simp
  have p2: "profile_call pp 1 = Inr 0" using q [of pp 1] ts by simp
  have p3: "profile_call pp (1 / 10000) = Inr (last (velocity pp))"
    using q [of pp "1 / 10000"] ts by simp
  show ?thesis
    using VolumeProfile_example pp ts v1 v2 v3 v4 p1 p2 p3 by (intro exI [of _ pp]) simp
qed

section \<open>Properties of setup_case\<close>

lemma lower_examples:
  "lower ''OH*'' = ''oh*''" "lower ''OH'' = ''oh''" "lower ''CH*'' = ''ch*''" "lower ''CH'' = ''ch''"
  by code_simp+

lemma try_list_plain: "spec \<noteq> [] \<Longrightarrow> last spec \<noteq> CHR ''*'' \<Longrightarrow> try_list spec = [spec, lower spec]"
  by (simp add: try_list_def)

lemma try_list_excited:
  "try_list (base @ ''*'') = [base @ ''*'', lower (base @ ''*''), base, lower base]"
  by (simp add: try_list_def)

lemma species_lookup_first:
  "species_lookup species_index (pre @ sp # post) = Inr (Some k)"
  if "\<forall>c \<in> set pre. species_index c = Inl ValueError" "species_index sp = Inr k"
  using that by (induction pre) simp_all

lemma species_lookup_none:
  "(\<forall>c \<in> set cs. species_index c = Inl ValueError) \<Longrightarrow> species_lookup species_index cs = Inr None"
  by (induction cs) simp_all

lemma setup_case_target_found:
  assumes "ignition_target self = PyStr spec" and "spec \<noteq> ''pressure''"
    and "spec \<noteq> ''temperature''" and "spec \<noteq> []"
    and "species_lookup species_index (try_list spec) = Inr (Some k)" and "0 < k"
  shows "setup_case_target species_index self = Inr (self\<lparr>ignition_target := PyInt k\<rparr>, [])"
  using assms by (simp add: setup_case_target_def)

lemma setup_case_target_not_found:
  assumes "ignition_target self = PyStr spec" and "spec \<noteq> ''pressure''"
    and "spec \<noteq> ''temperature''" and "spec \<noteq> []"
    and "species_lookup species_index (try_list spec) = Inr None"
  shows "setup_case_target species_index self = Inr (fall_back self spec)"
  using assms by (simp add: setup_case_target_def)

text \<open>
  C10. When the lookup of the species target succeeds with index 0, setup_case takes the
  not-found path all the same: it prints the warning, sets the target to pressure and
  the ignition type to \<open>d/dt max\<close>.
\<close>

theorem setup_case_index_zero_falls_back:
  assumes "ignition_target self = PyStr spec" and "spec \<noteq> ''pressure''"
    and "spec \<noteq> ''temperature''" and "spec \<noteq> []"
    and "species_lookup species_index (try_list spec) = Inr (Some 0)"
  shows "setup_case_target species_index self =
     Inr (self\<lparr>ignition_target := PyStr ''pressure'', ignition_type := ''d/dt max''\<rparr>,
          [''Warning: '' @ spec @ '' not found in model; falling back on pressure.''])"
  using assms by (simp add: setup_case_target_def fall_back_def)

theorem setup_case_index_zero_falls_back_witness:
  "ignition_target (case_with_target ''H2'') = PyStr ''H2''
   \<and> species_lookup (species_index_of [''H2'', ''O2'', ''OH'']) (try_list ''H2'') = Inr (Some 0)
   \<and> setup_case_target (species_index_of [''H2'', ''O2'', ''OH'']) (case_with_target ''H2'') =
     Inr (\<lparr>ignition_target = PyStr ''pressure'', ignition_type = ''d/dt max'', time_end = 1,
           compression_time = None\<rparr>,
          [''Warning: H2 not found in model; falling back on pressure.''])"
proof -
  have h1: "ignition_target (case_with_target ''H2'') = PyStr ''H2''"
    by (simp add: case_with_target_def)
  have h2: "''H2'' \<noteq> ''pressure''" "''H2'' \<noteq> ''temperature''" "''H2'' \<noteq> []"
    by simp_all
  have h3: "species_lookup (species_index_of [''H2'', ''O2'', ''OH'']) (try_list ''H2'') = Inr (Some 0)"
    by (simp add: try_list_def species_index_of_def)
  show ?thesis
    using h1 h3 setup_case_index_zero_falls_back [OF h1 h2 h3]
    by (simp add: case_with_target_def)
qed

text \<open>
  C5. In a mechanism whose first species is OH, the target \<open>OH*\<close> is looked up as
  \<open>OH*\<close>, \<open>oh*\<close>, \<open>OH\<close>; the third lookup succeeds with index 0, and setup_case
  nevertheless prints the warning and falls back on pressure with \<open>d/dt max\<close>, where
  the specification has the index of OH as the target, without fallback. The lemmas
  around it show the specified behaviour whenever the index found is not 0.
\<close>

theorem setup_case_excited_first_species:
  "setup_case_target (species_index_of [''OH'', ''H2'', ''O2'']) (case_with_target ''OH*'') =
     Inr (\<lparr>ignition_target = PyStr ''pressure'', ignition_type = ''d/dt max'', time_end = 1,
           compression_time = None\<rparr>,
          [''Warning: OH* not found in model; falling back on pressure.''])"
  by (simp add: setup_case_target_def case_with_target_def try_list_def species_index_of_def
      fall_back_def lower_examples)

lemma setup_case_excited_later_species:
  "setup_case_target (species_index_of [''H2'', ''O2'', ''OH'']) (case_with_target ''OH*'') =
     Inr (\<lparr>ignition_target = PyInt 2, ignition_type = ''max'', time_end = 1,
           compression_time = None\<rparr>, [])"
  by (simp add: setup_case_target_def case_with_target_def try_list_def species_index_of_def
      fall_back_def lower_examples)

lemma setup_case_missing_species:
  "setup_case_target (species_index_of [''H2'', ''O2'', ''OH'']) (case_with_target ''CH*'') =
     Inr (\<lparr>ignition_target = PyStr ''pressure'', ignition_type = ''d/dt max'', time_end = 1,
           compression_time = None\<rparr>,
          [''Warning: CH* not found in model; falling back on pressure.''])"
  by (simp add: setup_case_target_def case_with_target_def try_list_def species_index_of_def
      fall_back_def lower_examples)

section \<open>Properties of run_case\<close>

lemma np_interp_two:
  "a < x \<Longrightarrow> x < b \<Longrightarrow>
   np_interp x [a, b] [fa, fb] None None = Inr (linear_interpolation x a b fa fb)"
  by (simp add: np_interp_def linear_interpolation_def)

lemma collect_all_Inr:
  "(\<And>x. x \<in> set xs \<Longrightarrow> f x = Inr (g x)) \<Longrightarrow> collect f xs = Inr (map g xs)"
  by (induction xs) simp_all

lemma interpolate_to_end_Some:
  assumes "time p < t_end" and "t_end < time cur"
    and "length (mass_fractions cur) \<le> length (mass_fractions p)"
  shows "interpolate_to_end t_end (Some p) cur =
     Inr \<lparr>time = t_end,
          temperature = linear_interpolation t_end (time p) (time cur) (temperature p) (temperature cur),
          pressure = linear_interpolation t_end (time p) (time cur) (pressure p) (pressure cur),
          volume = linear_interpolation t_end (time p) (time cur) (volume p) (volume cur),
          mass_fractions =
            map (\<lambda>i. linear_interpolation t_end (time p) (time cur)
                        (mass_fractions p ! i) (mass_fractions cur ! i))
              [0 ..< length (mass_fractions cur)]\<rparr>"
proof -
  have "collect (interp_mass_frac t_end p cur) [0 ..< length (mass_fractions cur)] =
     Inr (map (\<lambda>i. linear_interpolation t_end (time p) (time cur)
                        (mass_fractions p ! i) (mass_fractions cur ! i))
             [0 ..< length (mass_fractions cur)])"
    using assms by (intro collect_all_Inr) (simp add: interp_mass_frac_def np_interp_two)
  then show ?thesis
    using assms by (simp add: interpolate_to_end_def np_interp_two)
qed

lemma integrate_stops:
  "t_end \<le> net_time net r \<Longrightarrow> integrate net t_end r prev table = Some (Inr table)"
  by (subst integrate.simps) simp

lemma integrate_records:
  assumes "net_time net r < t_end" and "net_step net t_end r = Inr r'"
    and "net_time net r' \<le> t_end"
  shows "integrate net t_end r prev table =
     integrate net t_end r' (Some (current net r')) (table @ [current net r'])"
  using assms by (subst integrate.simps) (simp add: new_row_def current_def)

lemma integrate_overshoot_interpolates:
  assumes "net_time net r < t_end" and "net_step net t_end r = Inr r'"
    and "t_end < net_time net r'"
    and "time p < t_end" and "length (reac_Y net r') \<le> length (mass_fractions p)"
  shows "integrate net t_end r (Some p) table =
     Some (Inr (table @
       [\<lparr>time = t_end,
         temperature = linear_interpolation t_end (time p) (net_time net r') (temperature p) (reac_T net r'),
         pressure = linear_interpolation t_end (time p) (net_time net r') (pressure p) (thermo_P net r'),
         volume = linear_interpolation t_end (time p) (net_time net r') (volume p) (reac_volume net r'),
         mass_fractions =
           map (\<lambda>i. linear_interpolation t_end (time p) (net_time net r')
                       (mass_fractions p ! i) (reac_Y net r' ! i))
             [0 ..< length (reac_Y net r')]\<rparr>]))"
proof -
  let ?cur = "current net r'"
  have cur: "time ?cur = net_time net r'" "mass_fractions ?cur = reac_Y net r'"
    "temperature ?cur = reac_T net r'" "pressure ?cur = thermo_P net r'"
    "volume ?cur = reac_volume net r'"
    by (simp_all add: current_def)
  have row: "new_row t_end (Some p) ?cur = interpolate_to_end t_end (Some p) ?cur"
    using assms(3) by (simp add: new_row_def cur)
  have "integrate net t_end r (Some p) table =
      (case new_row t_end (Some p) ?cur of
         Inl e \<Rightarrow> Some (Inl e)
       | Inr row \<Rightarrow> integrate net t_end r' (Some ?cur) (table @ [row]))"
    using assms(1,2) by (subst integrate.simps) simp
  also have "\<dots> = Some (Inr (table @
       [\<lparr>time = t_end,
         temperature = linear_interpolation t_end (time p) (net_time net r') (temperature p) (reac_T net r'),
         pressure = linear_interpolation t_end (time p) (net_time net r') (pressure p) (thermo_P net r'),
         volume = linear_interpolation t_end (time p) (net_time net r') (volume p) (reac_volume net r'),
         mass_fractions =
           map (\<lambda>i. linear_interpolation t_end (time p) (net_time net r')
                       (mass_fractions p ! i) (reac_Y net r' ! i))
             [0 ..< length (reac_Y net r')]\<rparr>]))"
    using assms(3,4,5) by (simp add: row interpolate_to_end_Some cur integrate_stops)
  finally show ?thesis .
qed

text \<open>
  C9. When the very first advance of the network goes beyond the end time, run_case
  raises NameError and records no interpolated row: the variables that carry the
  previous state are unbound until a loop iteration has completed. With them unbound,
  the row of an advance fails exactly when the advance overshoots; once they are bound
  (to a state before the end time, with as many mass fractions), the interpolated row
  is defined.
\<close>

theorem run_case_first_step_overshoot:
  assumes "net_time net r < time_end self"
    and "net_step net (time_end self) r = Inr r'"
    and "time_end self < net_time net r'"
  shows "run_case net self r = Some (Inl NameError)
    \<and> (\<forall>cur. new_row (time_end self) None cur = Inl NameError \<longleftrightarrow> time_end self < time cur)
    \<and> (\<forall>(p::timestep) (cur::timestep). time p < time_end self \<and> time_end self < time cur
            \<and> length (mass_fractions cur) \<le> length (mass_fractions p) \<longrightarrow>
          (\<exists>row. new_row (time_end self) (Some p) cur = Inr row))"
proof (intro conjI allI impI)
  show "run_case net self r = Some (Inl NameError)"
    unfolding run_case_def using assms
    by (subst integrate.simps) (simp add: new_row_def interpolate_to_end_def current_def)
next
  fix cur
  show "new_row (time_end self) None cur = Inl NameError \<longleftrightarrow> time_end self < time cur"
    by (simp add: new_row_def interpolate_to_end_def)
next
  fix p cur :: timestep
  assume "time p < time_end self \<and> time_end self < time cur
            \<and> length (mass_fractions cur) \<le> length (mass_fractions p)"
  then show "\<exists>row. new_row (time_end self) (Some p) cur = Inr row"
    by (simp add: new_row_def interpolate_to_end_Some)
qed

lemma synthetic_sel:
  "net_time (synthetic_net h) n = h * real n"
  "net_step (synthetic_net h) t n = Inr (Suc n)"
  "reac_T (synthetic_net h) n = 300 + 100 * real n"
  "thermo_P (synthetic_net h) n = 1000 + 10 * real n"
  "reac_volume (synthetic_net h) n = 1 + real n"
  "reac_Y (synthetic_net h) n = [1 - real n / 10, real n / 10]"
  by (simp_all add: synthetic_net_def)

theorem run_case_first_step_overshoot_witness:
  "net_time (synthetic_net 2) 0 < time_end (case_with_end 1)
   \<and> net_step (synthetic_net 2) (time_end (case_with_end 1)) 0 = Inr 1
   \<and> time_end (case_with_end 1) < net_time (synthetic_net 2) 1
   \<and> run_case (synthetic_net 2) (case_with_end 1) 0 = Some (Inl NameError)
   \<and> new_row (time_end (case_with_end 1)) None (current (synthetic_net 2) 1) = Inl NameError
   \<and> (\<exists>row. new_row (time_end (case_with_end 1))
               (Some (current (synthetic_net 2) 0)) (current (synthetic_net 2) 1) = Inr row)"
proof -
  have h4: "time (current (synthetic_net 2) 0) < time_end (case_with_end 1)
      \<and> time_end (case_with_end 1) < time (current (synthetic_net 2) 1)
      \<and> length (mass_fractions (current (synthetic_net 2) 1))
          \<le> length (mass_fractions (current (synthetic_net 2) 0))"
    by (simp add: synthetic_sel case_with_end_def current_def)
  have h1: "net_time (synthetic_net 2) 0 < time_end (case_with_end 1)"
    by (simp add: synthetic_sel case_with_end_def)
  have h2: "net_step (synthetic_net 2) (time_end (case_with_end 1)) 0 = Inr 1"
    by (simp add: synthetic_sel)
  have h3: "time_end (case_with_end 1) < net_time (synthetic_net 2) 1"
    by (simp add: synthetic_sel case_with_end_def)
  show ?thesis
    using h1 h2 h3 h4 run_case_first_step_overshoot [OF h1 h2 h3] by blast
qed

text \<open>
  C2. An advance from the recorded initial state at time 0 to time 3, beyond the end
  time 2, should end the table with a row interpolated to time 2; run_case raises
  NameError instead and returns no table. (When the overshoot comes after a completed
  step, the lemmas \<open>integrate_overshoot_interpolates\<close> above and
  \<open>run_case_overshoot_on_second_step\<close> below show the interpolated last row.)
\<close>

theorem run_case_overshoot_on_first_step:
  "run_case (synthetic_net 3) (case_with_end 2) 0 = Some (Inl NameError)"
  unfolding run_case_def
  by (subst integrate.simps)
     (simp add: synthetic_sel case_with_end_def new_row_def interpolate_to_end_def current_def)

lemma run_case_overshoot_on_second_step:
  "run_case (synthetic_net 3) (case_with_end 4) 0 =
     Some (Inr [\<lparr>time = 0, temperature = 300, pressure = 1000, volume = 1, mass_fractions = [1, 0]\<rparr>,
                \<lparr>time = 3, temperature = 400, pressure = 1010, volume = 2, mass_fractions = [9 / 10, 1 / 10]\<rparr>,
                \<lparr>time = 4, temperature = 1300 / 3, pressure = 3040 / 3, volume = 7 / 3,
                  mass_fractions = [13 / 15, 2 / 15]\<rparr>])"
proof -
  let ?net = "synthetic_net 3"
  have a: "integrate ?net 4 0 None [current ?net 0] =
      integrate ?net 4 (Suc 0) (Some (current ?net (Suc 0))) ([current ?net 0] @ [current ?net (Suc 0)])"
    by (rule integrate_records) (simp_all add: synthetic_sel)
  have b: "integrate ?net 4 (Suc 0) (Some (current ?net (Suc 0))) ([current ?net 0] @ [current ?net (Suc 0)]) = 
     Some (Inr (([current ?net 0] @ [current ?net (Suc 0)]) @
       [\<lparr>time = 4,
         temperature = linear_interpolation 4 (time (current ?net (Suc 0))) (net_time ?net (Suc (Suc 0))) (temperature (current ?net (Suc 0))) (reac_T ?net (Suc (Suc 0))),
         pressure = linear_interpolation 4 (time (current ?net (Suc 0))) (net_time ?net (Suc (Suc 0))) (pressure (current ?net (Suc 0))) (thermo_P ?net (Suc (Suc 0))),
         volume = linear_interpolation 4 (time (current ?net (Suc 0))) (net_time ?net (Suc (Suc 0))) (volume (current ?net (Suc 0))) (reac_volume ?net (Suc (Suc 0))),
         mass_fractions =
           map (\<lambda>i. linear_interpolation 4 (time (current ?net (Suc 0))) (net_time ?net (Suc (Suc 0)))
                       (mass_fractions (current ?net (Suc 0)) ! i) (reac_Y ?net (Suc (Suc 0)) ! i))
             [0 ..< length (reac_Y ?net (Suc (Suc 0)))]\<rparr>]))"
    by (rule integrate_overshoot_interpolates) (simp_all add: synthetic_sel current_def)
  have "run_case ?net (case_with_end 4) 0 = integrate ?net 4 0 None [current ?net 0]"
    by (simp add: run_case_def case_with_end_def)
  also note a
  also note b
  finally show ?thesis
    by (simp add: current_def synthetic_sel linear_interpolation_def upt_rec)
qed

section \<open>Properties of process_results\<close>

lemma argmax_loop_spec:
  assumes "xs = pre @ vs" and "length pre = i" and "best < i" and "mp = xs ! best"
    and "\<forall>j < i. xs ! j \<le> mp" and "\<forall>j < best. xs ! j < mp"
  shows "argmax_loop mp best i vs < length xs
    \<and> (\<forall>j < length xs. xs ! j \<le> xs ! argmax_loop mp best i vs)
    \<and> (\<forall>j < argmax_loop mp best i vs. xs ! j < xs ! argmax_loop mp best i vs)"
  using assms
proof (induction vs arbitrary: mp best i pre)
  case Nil
  then show ?case by simp
next
  case (Cons v vs)
  have v: "xs ! i = v" using Cons.prems(1,2) by (simp add: nth_append)
  have step: "xs = (pre @ [v]) @ vs" "length (pre @ [v]) = Suc i"
    using Cons.prems(1,2) by simp_all
  show ?case
  proof (cases "v > mp")
    case True
    have "\<forall>j < Suc i. xs ! j \<le> v"
      using Cons.prems(5) True v by (auto simp: less_Suc_eq intro: less_imp_le order_trans)
    moreover have "\<forall>j < i. xs ! j < v"
      using Cons.prems(5) True by (auto intro: le_less_trans)
    ultimately show ?thesis
      using Cons.IH [OF step, of i v] True v by simp
  next
    case False
    have "\<forall>j < Suc i. xs ! j \<le> mp"
      using Cons.prems(5) False v by (auto simp: less_Suc_eq)
    then show ?thesis
      using Cons.IH [OF step, of best mp] False Cons.prems(3,4,6) by simp
  qed
qed

lemma np_argmax_spec:
  assumes "a \<noteq> []"
  shows "\<exists>k. np_argmax a = Inr k \<and> k < length a \<and> (\<forall>j < length a. a ! j \<le> a ! k)
     \<and> (\<forall>j < k. a ! j < a ! k)"
proof -
  obtain v vs where a: "a = v # vs" using assms by (cases a) auto
  have "argmax_loop v 0 1 vs < length a
    \<and> (\<forall>j < length a. a ! j \<le> a ! argmax_loop v 0 1 vs)
    \<and> (\<forall>j < argmax_loop v 0 1 vs. a ! j < a ! argmax_loop v 0 1 vs)"
    by (rule argmax_loop_spec [where pre = "[v]"]) (simp_all add: a)
  then show ?thesis by (simp add: np_argmax_def a)
qed

lemma take_indices_ok:
  "list_all (\<lambda>i. i < length a) ind \<Longrightarrow> take_indices a ind = Inr (map (\<lambda>i. a ! i) ind)"
  by (simp add: take_indices_def)

lemma max_peak_spec:
  assumes "ind \<noteq> []" and "list_all (\<lambda>p. p < length target) ind"
  shows "\<exists>m. max_peak target ind = Inr m \<and> m \<in> set ind
     \<and> (\<forall>p \<in> set ind. target ! p \<le> target ! m)"
proof -
  let ?vals = "map (\<lambda>i. target ! i) ind"
  have "?vals \<noteq> []" using assms(1) by simp
  from np_argmax_spec [OF this] obtain k where
    k: "np_argmax ?vals = Inr k" "k < length ind" "\<forall>j < length ind. ?vals ! j \<le> ?vals ! k"
    by auto
  have "max_peak target ind = Inr (ind ! k)"
    by (simp add: max_peak_def take_indices_ok [OF assms(2)] k(1))
  moreover have "ind ! k \<in> set ind" using k(2) by simp
  moreover have "\<forall>p \<in> set ind. target ! p \<le> target ! (ind ! k)"
  proof
    fix p assume "p \<in> set ind"
    then obtain j where "j < length ind" "ind ! j = p" by (auto simp: in_set_conv_nth)
    then show "target ! p \<le> target ! (ind ! k)" using k(2,3) by force
  qed
  ultimately show ?thesis by blast
qed

lemma max_peak_empty: "max_peak target [] = Inl ValueError"
  by (simp add: max_peak_def take_indices_def np_argmax_def)

lemma sorted_filter_le_prefix:
  "sorted (ind :: nat list) \<Longrightarrow>
   filter (\<lambda>p. p \<le> m) ind = take (length (filter (\<lambda>p. p \<le> m) ind)) ind"
proof (induction ind)
  case Nil
  then show ?case by simp
next
  case (Cons x xs)
  show ?case
  proof (cases "x \<le> m")
    case True
    then show ?thesis using Cons by simp
  next
    case False
    then have "filter (\<lambda>p. p \<le> m) xs = []"
      using Cons.prems by (auto simp: filter_empty_conv)
    then show ?thesis using False by simp
  qed
qed

lemma positions_select:
  "map (\<lambda>j. xs ! j) (filter (\<lambda>j. P (xs ! j)) [0 ..< length xs]) = filter P xs"
proof -
  have "filter P (map (\<lambda>j. xs ! j) [0 ..< length xs]) =
      map (\<lambda>j. xs ! j) (filter (\<lambda>j. P (xs ! j)) [0 ..< length xs])"
    by (simp add: filter_map comp_def)
  then show ?thesis by (simp add: map_nth)
qed

lemma ign_delays_sorted:
  assumes "sorted ind" and "list_all (\<lambda>p. p < length tcol) ind"
  shows "ign_delays tcol ind m tc =
     Inr (map (\<lambda>p. tcol ! p - tc) (filter (\<lambda>p. tcol ! p - tc > 0) (filter (\<lambda>p. p \<le> m) ind)))"
proof -
  let ?A = "filter (\<lambda>p. p \<le> m) ind"
  let ?early = "map (\<lambda>i. tcol ! i) ?A"
  let ?pos = "filter (\<lambda>j. ?early ! j - tc > 0) [0 ..< length ?early]"
  have inA: "list_all (\<lambda>p. p < length tcol) ?A"
    using assms(2) by (simp add: list_all_iff)
  have early: "take_indices tcol ?A = Inr ?early"
    by (rule take_indices_ok [OF inA])
  have lenA: "length ?A \<le> length ind" by simp
  have pos_ok: "list_all (\<lambda>j. j < length ind) ?pos"
    using lenA by (auto simp: list_all_iff intro: less_le_trans)
  have prefix: "?A = take (length ?A) ind"
    by (rule sorted_filter_le_prefix [OF assms(1)])
  have pos_eq: "?pos = filter (\<lambda>j. tcol ! (?A ! j) - tc > 0) [0 ..< length ?A]"
    by (auto intro: filter_cong)
  have "map (\<lambda>j. ind ! j) ?pos = map (\<lambda>j. ?A ! j) ?pos"
  proof (rule map_cong [OF refl])
    fix j assume "j \<in> set ?pos"
    then have "j < length ?A" by simp
    moreover have "?A ! j = take (length ?A) ind ! j"
      using prefix by (rule arg_cong)
    ultimately show "ind ! j = ?A ! j" by simp
  qed
  also have "\<dots> = map (\<lambda>j. ?A ! j) (filter (\<lambda>j. tcol ! (?A ! j) - tc > 0) [0 ..< length ?A])"
    by (simp only: pos_eq)
  also have "\<dots> = filter (\<lambda>p. tcol ! p - tc > 0) ?A"
    by (rule positions_select)
  finally have sel: "map (\<lambda>j. ind ! j) ?pos = filter (\<lambda>p. tcol ! p - tc > 0) ?A" .
  have sel_ok: "list_all (\<lambda>p. p < length tcol) (filter (\<lambda>p. tcol ! p - tc > 0) ?A)"
    using assms(2) by (simp add: list_all_iff)
  have step2: "take_indices ind ?pos = Inr (filter (\<lambda>p. tcol ! p - tc > 0) ?A)"
    by (simp only: take_indices_ok [OF pos_ok] sel)
  have step3: "take_indices tcol (filter (\<lambda>p. tcol ! p - tc > 0) ?A) =
      Inr (map (\<lambda>i. tcol ! i) (filter (\<lambda>p. tcol ! p - tc > 0) ?A))"
    by (rule take_indices_ok [OF sel_ok])
  have "ign_delays tcol ind m tc =
      Inr (map (\<lambda>t. t - tc) (map (\<lambda>i. tcol ! i) (filter (\<lambda>p. tcol ! p - tc > 0) ?A)))"
    by (simp only: ign_delays_def Let_def early sum.case step2 step3)
  then show ?thesis by (simp add: comp_def)
qed

lemma table_col_target_length: "table_col_target self table = Inr target0 \<Longrightarrow> length target0 = length table"
  by (auto simp: table_col_target_def split: if_splits py_value.splits)

lemma find_peaks_length:
  "find_peaks detect ign_type tcol target0 = Inr (target, ind) \<Longrightarrow>
   length target0 = length tcol \<Longrightarrow> length target = length tcol"
  by (auto simp: find_peaks_def Let_def split: if_splits sum.splits dest: first_derivative_length)

lemma table_col_target_ignition_type:
  "table_col_target (self\<lparr>ignition_type := ty\<rparr>) table = table_col_target self table"
  by (simp add: table_col_target_def)

lemma time_comp_ignition_type: "time_comp (self\<lparr>ignition_type := ty\<rparr>) = time_comp self"
  by (simp add: time_comp_def)

lemma sorted_candidates:
  assumes "sorted (tcol :: real list)" and "sorted ind"
    and "list_all (\<lambda>p. p < length tcol) ind"
  shows "sorted (map (\<lambda>p. tcol ! p - tc) (filter P ind))"
proof -
  have "sorted_wrt (\<lambda>p q. tcol ! p - tc \<le> tcol ! q - tc) ind"
  proof (rule sorted_wrt_mono_rel [of ind "(\<le>)"])
    fix p q assume "p \<in> set ind" "q \<in> set ind" "p \<le> q"
    then have "q < length tcol" using assms(3) by (simp add: list_all_iff)
    with assms(1) \<open>p \<le> q\<close> have "tcol ! p \<le> tcol ! q"
      by (rule sorted_nth_mono)
    then show "tcol ! p - tc \<le> tcol ! q - tc" by simp
  next
    show "sorted_wrt (\<le>) ind" using assms(2) by simp
  qed
  then have "sorted_wrt (\<lambda>p q. tcol ! p - tc \<le> tcol ! q - tc) (filter P ind)"
    by (rule sorted_wrt_filter)
  then show ?thesis by (simp add: sorted_map)
qed

lemma process_results_no_peaks:
  assumes "table_col_target self table = Inr target0"
    and "find_peaks detect (ignition_type self) (map time table) target0 = Inr (target, [])"
  shows "process_results detect self table = Inl ValueError"
  using assms by (simp add: process_results_def max_peak_empty)

text \<open>
  C6. Let the detector have returned a non-empty, ascending list of peak indices within
  the table. Then \<open>max_ind\<close> is a detected peak with the largest channel value; the
  candidate delays are \<open>time[p] - time_comp\<close> for the detected peaks \<open>p \<le> max_ind\<close> with
  \<open>time[p] - time_comp > 0\<close>, in the order of the peaks (ascending when the time column
  is); the overall delay is the last candidate, or 0 seconds when there is none; the
  first-stage delay is the first candidate when there are at least two, else NaN.
\<close>

theorem process_results_candidates:
  assumes "table_col_target self table = Inr target0"
    and "find_peaks detect (ignition_type self) (map time table) target0 = Inr (target, ind)"
    and "ind \<noteq> []" and "sorted ind" and "list_all (\<lambda>p. p < length table) ind"
  shows "\<exists>max_ind. max_peak target ind = Inr max_ind \<and> max_ind \<in> set ind
     \<and> (\<forall>p \<in> set ind. target ! p \<le> target ! max_ind)
     \<and> (let candidates =
             map (\<lambda>p. time (table ! p) - time_comp self)
               (filter (\<lambda>p. p \<le> max_ind \<and> time (table ! p) - time_comp self > 0) ind)
        in process_results detect self table =
             Inr \<lparr>simulated_ignition_delay =
                    (if candidates \<noteq> [] then Seconds (last candidates) else Seconds 0),
                  simulated_first_stage_delay =
                    (if 2 \<le> length candidates then Seconds (hd candidates) else NaN_seconds)\<rparr>
           \<and> (sorted (map time table) \<longrightarrow> sorted candidates))"
proof -
  let ?tcol = "map time table"
  let ?tc = "time_comp self"
  have len: "length target = length table"
    using find_peaks_length [OF assms(2)] table_col_target_length [OF assms(1)] by simp
  have in_target: "list_all (\<lambda>p. p < length target) ind" using assms(5) len by simp
  have in_tcol: "list_all (\<lambda>p. p < length ?tcol) ind" using assms(5) by simp
  from max_peak_spec [OF assms(3) in_target] obtain m where
    m: "max_peak target ind = Inr m" "m \<in> set ind" "\<forall>p \<in> set ind. target ! p \<le> target ! m"
    by blast
  let ?sel = "filter (\<lambda>p. p \<le> m \<and> time (table ! p) - ?tc > 0) ind"
  let ?cands = "map (\<lambda>p. time (table ! p) - ?tc) ?sel"
  have nth: "?tcol ! p = time (table ! p)" if "p \<in> set ind" for p
    using that assms(5) by (simp add: list_all_iff)
  have meq: "map (\<lambda>p. ?tcol ! p - ?tc) ?sel = ?cands"
    using nth by (auto intro: map_cong)
  have "ign_delays ?tcol ind m ?tc =
      Inr (map (\<lambda>p. ?tcol ! p - ?tc)
            (filter (\<lambda>p. ?tcol ! p - ?tc > 0) (filter (\<lambda>p. p \<le> m) ind)))"
    by (rule ign_delays_sorted [OF assms(4) in_tcol])
  also have "filter (\<lambda>p. ?tcol ! p - ?tc > 0) (filter (\<lambda>p. p \<le> m) ind) = ?sel"
    using nth by (auto intro: filter_cong)
  also have "map (\<lambda>p. ?tcol ! p - ?tc) ?sel = ?cands"
    by (rule meq)
  finally have delays: "ign_delays ?tcol ind m ?tc = Inr ?cands" .
  have res: "process_results detect self table = Inr (report ?cands)"
    by (simp only: process_results_def Let_def assms(1,2) sum.case prod.case m(1) delays)
  have rep: "report ?cands =
      \<lparr>simulated_ignition_delay = (if ?cands \<noteq> [] then Seconds (last ?cands) else Seconds 0),
       simulated_first_stage_delay =
         (if 2 \<le> length ?cands then Seconds (hd ?cands) else NaN_seconds)\<rparr>"
  proof -
    have "hd ?cands = ?cands ! 0" if "2 \<le> length ?cands"
      using that by (intro hd_conv_nth) auto
    moreover have "(1 < length ?cands) = (2 \<le> length ?cands)" by auto
    ultimately show ?thesis unfolding report_def by simp
  qed
  have srt: "sorted ?cands" if "sorted ?tcol"
  proof -
    have "sorted (map (\<lambda>p. ?tcol ! p - ?tc) ?sel)"
      by (rule sorted_candidates [OF that assms(4) in_tcol])
    then show ?thesis by (simp only: meq)
  qed
  show ?thesis
    using m res rep srt by (intro exI [of _ m]) (simp only: Let_def, blast)
qed

lemma two_peak_channel:
  "table_col_target (pressure_case ''max'')
     (pressure_table [(0, 1), (1, 3), (2, 2), (3, 5), (4, 4), (5, 4)]) = Inr [1, 3, 2, 5, 4, 4]"
  by (simp add: table_col_target_def pressure_case_def pressure_table_def)

lemma two_peak_detect: "detect_peaks [1, 3, 2, 5, 4, 4] = [1, 3]"
  by (simp add: detect_peaks_def upt_rec)

lemma two_peak_find:
  "find_peaks detect_peaks ''max'' [0, 1, 2, 3, 4, 5] [1, 3, 2, 5, 4, 4] = Inr ([1, 3, 2, 5, 4, 4], [1, 3])"
  by (simp add: find_peaks_def two_peak_detect)

lemma two_peak_max: "max_peak [1, 3, 2, 5, 4, 4] [1, 3] = Inr 3"
  by (simp add: max_peak_def take_indices_def np_argmax_def)

theorem process_results_candidates_witness:
  "table_col_target (pressure_case ''max'')
     (pressure_table [(0, 1), (1, 3), (2, 2), (3, 5), (4, 4), (5, 4)]) = Inr [1, 3, 2, 5, 4, 4]
   \<and> find_peaks detect_peaks (ignition_type (pressure_case ''max''))
       (map time (pressure_table [(0, 1), (1, 3), (2, 2), (3, 5), (4, 4), (5, 4)]))
       [1, 3, 2, 5, 4, 4] = Inr ([1, 3, 2, 5, 4, 4], [1, 3])
   \<and> sorted [1, 3 :: nat]
   \<and> list_all (\<lambda>p. p < length (pressure_table [(0, 1), (1, 3), (2, 2), (3, 5), (4, 4), (5, 4)])) [1, 3]
   \<and> max_peak [1, 3, 2, 5, 4, 4] [1, 3] = Inr 3
   \<and> process_results detect_peaks (pressure_case ''max'')
       (pressure_table [(0, 1), (1, 3), (2, 2), (3, 5), (4, 4), (5, 4)]) =
       Inr \<lparr>simulated_ignition_delay = Seconds (5 / 2),
            simulated_first_stage_delay = Seconds (1 / 2)\<rparr>"
proof -
  let ?table = "pressure_table [(0, 1), (1, 3), (2, 2), (3, 5), (4, 4), (5, 4)]"
  have h1: "table_col_target (pressure_case ''max'') ?table = Inr [1, 3, 2, 5, 4, 4]"
    by (rule two_peak_channel)
  have h2: "find_peaks detect_peaks (ignition_type (pressure_case ''max'')) (map time ?table)
      [1, 3, 2, 5, 4, 4] = Inr ([1, 3, 2, 5, 4, 4], [1, 3])"
    using two_peak_find by (simp add: pressure_case_def pressure_table_def)
  have h3: "[1, 3 :: nat] \<noteq> []" by simp
  have h4: "sorted [1, 3 :: nat]" by simp
  have h5: "list_all (\<lambda>p. p < length ?table) [1, 3]" by (simp add: pressure_table_def)
  from process_results_candidates [OF h1 h2 h3 h4 h5] obtain m where
    m: "max_peak [1, 3, 2, 5, 4, 4] [1, 3] = Inr m"
    and res: "process_results detect_peaks (pressure_case ''max'') ?table =
       Inr \<lparr>simulated_ignition_delay =
              (if map (\<lambda>p. time (?table ! p) - time_comp (pressure_case ''max''))
                   (filter (\<lambda>p. p \<le> m \<and> time (?table ! p) - time_comp (pressure_case ''max'') > 0) [1, 3]) \<noteq> []
               then Seconds (last (map (\<lambda>p. time (?table ! p) - time_comp (pressure_case ''max''))
                   (filter (\<lambda>p. p \<le> m \<and> time (?table ! p) - time_comp (pressure_case ''max'') > 0) [1, 3])))
               else Seconds 0),
            simulated_first_stage_delay =
              (if 2 \<le> length (map (\<lambda>p. time (?table ! p) - time_comp (pressure_case ''max''))
                   (filter (\<lambda>p. p \<le> m \<and> time (?table ! p) - time_comp (pressure_case ''max'') > 0) [1, 3]))
               then Seconds (hd (map (\<lambda>p. time (?table ! p) - time_comp (pressure_case ''max''))
                   (filter (\<lambda>p. p \<le> m \<and> time (?table ! p) - time_comp (pressure_case ''max'') > 0) [1, 3])))
               else NaN_seconds)\<rparr>"
    unfolding Let_def by blast
  have "m = 3" using m two_peak_max by simp
  then have "process_results detect_peaks (pressure_case ''max'') ?table =
       Inr \<lparr>simulated_ignition_delay = Seconds (5 / 2),
            simulated_first_stage_delay = Seconds (1 / 2)\<rparr>"
    using res by (simp add: pressure_table_def time_comp_def pressure_case_def)
  then show ?thesis
    using h1 h2 h4 h5 two_peak_max by simp
qed

text \<open>
  C3. On a table with the monotone pressures 1, 2, 3 the detector finds no peak, neither
  in the pressure nor, after the fallback, in its derivative; process_results then
  raises ValueError (\<open>np.argmax\<close> of an empty array) instead of reporting 0 seconds and
  NaN.
\<close>

theorem process_results_monotone_signal:
  "process_results detect_peaks (pressure_case ''max'')
     (pressure_table [(0, 1), (1, 2), (2, 3)]) = Inl ValueError"
  by (simp add: process_results_def table_col_target_def pressure_case_def pressure_table_def
      find_peaks_def detect_peaks_def first_derivative_def np_gradient_def max_peak_empty upt_rec)

lemma process_results_monotone_signal_derivative:
  "process_results detect_peaks (pressure_case ''d/dt max'')
     (pressure_table [(0, 1), (1, 2), (2, 3)]) = Inl ValueError"
  by (simp add: process_results_def table_col_target_def pressure_case_def pressure_table_def
      find_peaks_def detect_peaks_def first_derivative_def np_gradient_def max_peak_empty upt_rec)

text \<open>
  C4. When the ignition type is \<open>max\<close> and the detector returns no index on the
  channel, the channel is replaced by its first derivative with respect to time and the
  detector runs again on the derivative; process_results then computes the largest peak
  and the delays from the derivative and the indices found on it, which is also what it
  computes for the type \<open>d/dt max\<close>. When the detector found a peak, the channel and
  the indices stay as they are. For the type \<open>d/dt max\<close> the channel is differentiated
  once and the detector runs once, whatever it returns.
\<close>

theorem find_peaks_fallback:
  assumes "table_col_target self table = Inr target0"
    and "first_derivative (map time table) target0 = Inr deriv"
  shows "(ignition_type self = ''max'' \<and> detect target0 = [] \<longrightarrow>
            find_peaks detect (ignition_type self) (map time table) target0 =
              Inr (deriv, detect deriv)
            \<and> process_results detect self table =
                (case max_peak deriv (detect deriv) of
                   Inl e \<Rightarrow> Inl e
                 | Inr max_ind \<Rightarrow>
                     (case ign_delays (map time table) (detect deriv) max_ind (time_comp self) of
                        Inl e \<Rightarrow> Inl e
                      | Inr ds \<Rightarrow> Inr (report ds)))
            \<and> process_results detect self table =
                process_results detect (self\<lparr>ignition_type := ''d/dt max''\<rparr>) table)
    \<and> (ignition_type self = ''max'' \<and> detect target0 \<noteq> [] \<longrightarrow>
            find_peaks detect (ignition_type self) (map time table) target0 =
              Inr (target0, detect target0)
            \<and> process_results detect self table =
                (case max_peak target0 (detect target0) of
                   Inl e \<Rightarrow> Inl e
                 | Inr max_ind \<Rightarrow>
                     (case ign_delays (map time table) (detect target0) max_ind (time_comp self) of
                        Inl e \<Rightarrow> Inl e
                      | Inr ds \<Rightarrow> Inr (report ds))))
    \<and> (ignition_type self = ''d/dt max'' \<longrightarrow>
            find_peaks detect (ignition_type self) (map time table) target0 =
              Inr (deriv, detect deriv)
            \<and> process_results detect self table =
                (case max_peak deriv (detect deriv) of
                   Inl e \<Rightarrow> Inl e
                 | Inr max_ind \<Rightarrow>
                     (case ign_delays (map time table) (detect deriv) max_ind (time_comp self) of
                        Inl e \<Rightarrow> Inl e
                      | Inr ds \<Rightarrow> Inr (report ds))))"
  using assms
  by (simp add: find_peaks_def process_results_def table_col_target_ignition_type
      time_comp_ignition_type cong: sum.case_cong)

lemma rising_channel:
  "table_col_target (pressure_case ty) (pressure_table [(0, 0), (1, 1), (2, 4), (3, 5)]) =
     Inr [0, 1, 4, 5]"
  by (simp add: table_col_target_def pressure_case_def pressure_table_def)

lemma rising_derivative:
  "first_derivative (map time (pressure_table [(0, 0), (1, 1), (2, 4), (3, 5)])) [0, 1, 4, 5] =
     Inr [0, 2, 2, 0]"
  by (simp add: pressure_table_def first_derivative_def np_gradient_def)

lemma rising_detect:
  "detect_peaks [0, 1, 4, 5] = []" "detect_peaks [0, 2, 2, 0] = [1]"
  by (simp_all add: detect_peaks_def upt_rec)

lemma rising_delays:
  "(case max_peak [0, 2, 2, 0] [1] of
      Inl e \<Rightarrow> Inl e
    | Inr max_ind \<Rightarrow>
        (case ign_delays (map time (pressure_table [(0, 0), (1, 1), (2, 4), (3, 5)])) [1] max_ind
                (time_comp (pressure_case ty)) of
           Inl e \<Rightarrow> Inl e
         | Inr ds \<Rightarrow> Inr (report ds))) =
   Inr \<lparr>simulated_ignition_delay = Seconds (1 / 2), simulated_first_stage_delay = NaN_seconds\<rparr>"
  by (simp add: max_peak_def take_indices_def np_argmax_def ign_delays_def time_comp_def
      report_def pressure_case_def pressure_table_def)

lemma peaked_channel:
  "table_col_target (pressure_case ty) (pressure_table [(0, 1), (1, 3), (2, 2), (3, 2)]) =
     Inr [1, 3, 2, 2]"
  by (simp add: table_col_target_def pressure_case_def pressure_table_def)

lemma peaked_derivative:
  "first_derivative (map time (pressure_table [(0, 1), (1, 3), (2, 2), (3, 2)])) [1, 3, 2, 2] =
     Inr [7 / 2, 1 / 2, - 1 / 2, 1 / 2]"
  by (simp add: pressure_table_def first_derivative_def np_gradient_def)

lemma peaked_detect: "detect_peaks [1, 3, 2, 2] = [1]"
  by (simp add: detect_peaks_def upt_rec)

lemma peaked_delays:
  "(case max_peak [1, 3, 2, 2] [1] of
      Inl e \<Rightarrow> Inl e
    | Inr max_ind \<Rightarrow>
        (case ign_delays (map time (pressure_table [(0, 1), (1, 3), (2, 2), (3, 2)])) [1] max_ind
                (time_comp (pressure_case ty)) of
           Inl e \<Rightarrow> Inl e
         | Inr ds \<Rightarrow> Inr (report ds))) =
   Inr \<lparr>simulated_ignition_delay = Seconds (1 / 2), simulated_first_stage_delay = NaN_seconds\<rparr>"
  by (simp add: max_peak_def take_indices_def np_argmax_def ign_delays_def time_comp_def
      report_def pressure_case_def pressure_table_def)

theorem find_peaks_fallback_witness:
  "table_col_target (pressure_case ''max'') (pressure_table [(0, 0), (1, 1), (2, 4), (3, 5)]) =
     Inr [0, 1, 4, 5]
   \<and> first_derivative (map time (pressure_table [(0, 0), (1, 1), (2, 4), (3, 5)])) [0, 1, 4, 5] =
     Inr [0, 2, 2, 0]
   \<and> ignition_type (pressure_case ''max'') = ''max''
   \<and> detect_peaks [0, 1, 4, 5] = []
   \<and> detect_peaks [0, 2, 2, 0] = [1]
   \<and> find_peaks detect_peaks ''max''
       (map time (pressure_table [(0, 0), (1, 1), (2, 4), (3, 5)])) [0, 1, 4, 5] =
     Inr ([0, 2, 2, 0], [1])
   \<and> process_results detect_peaks (pressure_case ''max'')
       (pressure_table [(0, 0), (1, 1), (2, 4), (3, 5)]) =
     Inr \<lparr>simulated_ignition_delay = Seconds (1 / 2), simulated_first_stage_delay = NaN_seconds\<rparr>
   \<and> ignition_type (pressure_case ''d/dt max'') = ''d/dt max''
   \<and> find_peaks detect_peaks ''d/dt max''
       (map time (pressure_table [(0, 0), (1, 1), (2, 4), (3, 5)])) [0, 1, 4, 5] =
     Inr ([0, 2, 2, 0], [1])
   \<and> process_results detect_peaks (pressure_case ''d/dt max'')
       (pressure_table [(0, 0), (1, 1), (2, 4), (3, 5)]) =
     Inr \<lparr>simulated_ignition_delay = Seconds (1 / 2), simulated_first_stage_delay = NaN_seconds\<rparr>
   \<and> table_col_target (pressure_case ''max'') (pressure_table [(0, 1), (1, 3), (2, 2), (3, 2)]) =
     Inr [1, 3, 2, 2]
   \<and> detect_peaks [1, 3, 2, 2] = [1]
   \<and> find_peaks detect_peaks ''max''
       (map time (pressure_table [(0, 1), (1, 3), (2, 2), (3, 2)])) [1, 3, 2, 2] =
     Inr ([1, 3, 2, 2], [1])
   \<and> process_results detect_peaks (pressure_case ''max'')
       (pressure_table [(0, 1), (1, 3), (2, 2), (3, 2)]) =
     Inr \<lparr>simulated_ignition_delay = Seconds (1 / 2), simulated_first_stage_delay = NaN_seconds\<rparr>"
proof -
  have ty: "ignition_type (pressure_case ''max'') = ''max''"
    "ignition_type (pressure_case ''d/dt max'') = ''d/dt max''"
    by (simp_all add: pressure_case_def)
  have ne: "detect_peaks [1, 3, 2, 2] \<noteq> []" by (simp add: peaked_detect)
  note a = find_peaks_fallback [OF rising_channel [of "''max''"] rising_derivative,
      of detect_peaks]
  note b = find_peaks_fallback [OF rising_channel [of "''d/dt max''"] rising_derivative,
      of detect_peaks]
  note c = find_peaks_fallback [OF peaked_channel [of "''max''"] peaked_derivative,
      of detect_peaks]
  have a': "find_peaks detect_peaks ''max''
       (map time (pressure_table [(0, 0), (1, 1), (2, 4), (3, 5)])) [0, 1, 4, 5] =
     Inr ([0, 2, 2, 0], [1])
     \<and> process_results detect_peaks (pressure_case ''max'')
       (pressure_table [(0, 0), (1, 1), (2, 4), (3, 5)]) =
     Inr \<lparr>simulated_ignition_delay = Seconds (1 / 2), simulated_first_stage_delay = NaN_seconds\<rparr>"
    using a by (simp only: ty rising_detect rising_delays, simp?)
  have b': "find_peaks detect_peaks ''d/dt max''
       (map time (pressure_table [(0, 0), (1, 1), (2, 4), (3, 5)])) [0, 1, 4, 5] =
     Inr ([0, 2, 2, 0], [1])
     \<and> process_results detect_peaks (pressure_case ''d/dt max'')
       (pressure_table [(0, 0), (1, 1), (2, 4), (3, 5)]) =
     Inr \<lparr>simulated_ignition_delay = Seconds (1 / 2), simulated_first_stage_delay = NaN_seconds\<rparr>"
    using b by (simp only: ty rising_detect rising_delays, simp?)
  have c': "find_peaks detect_peaks ''max''
       (map time (pressure_table [(0, 1), (1, 3), (2, 2), (3, 2)])) [1, 3, 2, 2] =
     Inr ([1, 3, 2, 2], [1])
     \<and> process_results detect_peaks (pressure_case ''max'')
       (pressure_table [(0, 1), (1, 3), (2, 2), (3, 2)]) =
     Inr \<lparr>simulated_ignition_delay = Seconds (1 / 2), simulated_first_stage_delay = NaN_seconds\<rparr>"
    using c ne by (simp only: ty peaked_detect peaked_delays, simp?)
  show ?thesis
    using a' b' c' rising_channel [of "''max''"] rising_derivative peaked_channel [of "''max''"]
    by (simp add: ty rising_detect peaked_detect)
qed

lemma process_results_fallback_example:
  "process_results detect_peaks (pressure_case ''max'')
     (pressure_table [(0, 0), (1, 1), (2, 4), (3, 5)]) =
     Inr \<lparr>simulated_ignition_delay = Seconds (1 / 2), simulated_first_stage_delay = NaN_seconds\<rparr>"
proof -
  let ?table = "pressure_table [(0, 0), (1, 1), (2, 4), (3, 5)]"
  have ty: "ignition_type (pressure_case ''max'') = ''max''"
    by (simp add: pressure_case_def)
  have f: "find_peaks detect_peaks ''max'' (map time ?table) [0, 1, 4, 5] = Inr ([0, 2, 2, 0], [1])"
    by (simp add: find_peaks_def rising_detect rising_derivative)
  have "process_results detect_peaks (pressure_case ''max'') ?table =
      (case max_peak [0, 2, 2, 0] [1] of
         Inl e \<Rightarrow> Inl e
       | Inr max_ind \<Rightarrow>
           (case ign_delays (map time ?table) [1] max_ind (time_comp (pressure_case ''max'')) of
              Inl e \<Rightarrow> Inl e
            | Inr ds \<Rightarrow> Inr (report ds)))"
    by (simp only: process_results_def Let_def rising_channel ty f sum.case prod.case)
  then show ?thesis
    by (simp add: max_peak_def take_indices_def np_argmax_def ign_delays_def time_comp_def
        report_def pressure_case_def pressure_table_def)
qed

end
